theory Spec2Isabelle
  imports Complex_Main "HOL-Library.AList"
begin

section \<open>The rate limiter (class RateLimiter)\<close>

text \<open>
  Times are the integers returned by \<^verbatim>\<open>Date.now()\<close> (milliseconds since the epoch).
  Every method that reads the clock takes the reading as its first argument \<open>now\<close>; one
  call of \<^verbatim>\<open>canSendMessage\<close> uses one reading for all the clock reads it makes.
  The identifiers of senders and the message types are strings.
\<close>

subsection \<open>Data\<close>

datatype limitKey = messages | media | commands

datatype windowType = perMinute | perHour | perDay

record limitConfig =
  limPerMinute :: nat
  limPerHour :: nat
  limPerDay :: nat

record violation =
  vtype :: windowType
  count :: nat
  limit :: nat

datatype severity = warning | soft | hard | severe

record userData =
  ud_messages :: "int list"
  ud_media :: "int list"
  ud_commands :: "int list"
  lastWarning :: int
  warningCount :: nat

record blockInfo =
  blockedAt :: int
  duration :: int
  reason :: violation
  violations :: "violation list"
  messageType :: string

text \<open>
  \<open>reason\<close> holds the violation whose count, limit and type fill the template
  \<^verbatim>\<open>Rate limit exceeded: ${count}/${limit} ${type}\<close>.
  \<open>blockedUsers\<close> is a JavaScript \<^verbatim>\<open>Map\<close>: an association list in insertion
  order, where \<^verbatim>\<open>set\<close> on a present key keeps its place (\<^const>\<open>AList.update\<close>).
\<close>

record rateLimiter =
  userLimits :: "string \<rightharpoonup> userData"
  blockedUsers :: "(string \<times> blockInfo) list"
  limits :: "limitKey \<Rightarrow> limitConfig"

text \<open>
  The warning text is the template
  \<^verbatim>\<open>Warning: You're sending messages quickly (${perMinute}/${limits.perMinute} per minute). ...\<close>;
  \<open>QuickWarning n l\<close> stands for it with the two numbers filled in.
\<close>

datatype warningMessage = QuickWarning nat nat

text \<open>
  The three shapes of object that \<^verbatim>\<open>canSendMessage\<close> returns:
  \<^verbatim>\<open>{allowed: true, warning?}\<close>,
  \<^verbatim>\<open>{allowed: false, reason: 'blocked', blockInfo}\<close> and
  \<^verbatim>\<open>{allowed: false, reason: 'blocked', severity, blockDuration, violations}\<close>.
\<close>

datatype decision =
    Allowed "warningMessage option"
  | BlockedInfo "blockInfo option"
  | BlockedNow severity int "violation list"

fun allowed :: "decision \<Rightarrow> bool" where
  "allowed (Allowed w) = True"
| "allowed (BlockedInfo b) = False"
| "allowed (BlockedNow sv d vs) = False"

text \<open>
  An entry of the list that \<^verbatim>\<open>getBlockedUsers\<close> returns; \<open>be_blockedAt\<close> is the
  instant that the string \<^verbatim>\<open>new Date(blockInfo.blockedAt).toISOString()\<close> denotes.
\<close>

record blockedEntry =
  userJid :: string
  be_reason :: violation
  remainingTime :: int
  be_blockedAt :: int

subsection \<open>The constructor's tables\<close>

fun defaultLimits :: "limitKey \<Rightarrow> limitConfig" where
  "defaultLimits messages = \<lparr>limPerMinute = 20, limPerHour = 100, limPerDay = 500\<rparr>"
| "defaultLimits media = \<lparr>limPerMinute = 5, limPerHour = 30, limPerDay = 100\<rparr>"
| "defaultLimits commands = \<lparr>limPerMinute = 10, limPerHour = 50, limPerDay = 200\<rparr>"

text \<open>
  \<^verbatim>\<open>warningThresholds\<close> are 0.8, 0.7 and 0.9; they are kept as tenths, and
  \<^verbatim>\<open>Math.floor(limits.perMinute * warningThreshold)\<close> is the integer quotient below
  (16, 3 and 9 for the default limits, as the floating-point product gives).
\<close>

fun warningThresholds :: "limitKey \<Rightarrow> nat" where
  "warningThresholds messages = 8"
| "warningThresholds media = 7"
| "warningThresholds commands = 9"

fun blockDurations :: "severity \<Rightarrow> int" where
  "blockDurations warning = 0"
| "blockDurations soft = 5 * 60 * 1000"
| "blockDurations hard = 30 * 60 * 1000"
| "blockDurations severe = 2 * 60 * 60 * 1000"

definition newRateLimiter :: rateLimiter where
  "newRateLimiter = \<lparr>userLimits = Map.empty, blockedUsers = [], limits = defaultLimits\<rparr>"

definition emptyUserData :: userData where
  "emptyUserData =
     \<lparr>ud_messages = [], ud_media = [], ud_commands = [], lastWarning = 0, warningCount = 0\<rparr>"

fun actionsOf :: "userData \<Rightarrow> limitKey \<Rightarrow> int list" where
  "actionsOf u messages = ud_messages u"
| "actionsOf u media = ud_media u"
| "actionsOf u commands = ud_commands u"

fun setActions :: "userData \<Rightarrow> limitKey \<Rightarrow> int list \<Rightarrow> userData" where
  "setActions u messages xs = u\<lparr>ud_messages := xs\<rparr>"
| "setActions u media xs = u\<lparr>ud_media := xs\<rparr>"
| "setActions u commands xs = u\<lparr>ud_commands := xs\<rparr>"

definition userKey :: "string \<Rightarrow> string \<Rightarrow> string" where
  "userKey jid mt = jid @ '':'' @ mt"

subsection \<open>Severity of a violation\<close>

text \<open>
  \<^verbatim>\<open>ratio = violation.count / violation.limit\<close> on JavaScript numbers: with a limit of
  zero the quotient is \<^verbatim>\<open>Infinity\<close> (count positive) or \<^verbatim>\<open>NaN\<close> (count zero), and every
  comparison with \<^verbatim>\<open>NaN\<close> is false.
\<close>

definition ratio :: "violation \<Rightarrow> rat" where
  "ratio v = of_nat (count v) / of_nat (limit v)"

definition getViolationSeverity :: "violation \<Rightarrow> severity" where
  "getViolationSeverity v =
     (if limit v = 0 then (if count v = 0 then warning else severe)
      else if ratio v \<ge> 2 then severe
      else if ratio v \<ge> 3 / 2 then hard
      else if ratio v \<ge> 1 then soft
      else warning)"

text \<open>
  The method returns the strings below, and \<^verbatim>\<open>handleViolations\<close> compares two
  of them with \<^verbatim>\<open>>\<close>: the comparison of JavaScript strings, by code units from the left.
\<close>

fun severityName :: "severity \<Rightarrow> string" where
  "severityName warning = ''warning''"
| "severityName soft = ''soft''"
| "severityName hard = ''hard''"
| "severityName severe = ''severe''"

fun stringGreater :: "string \<Rightarrow> string \<Rightarrow> bool" where
  "stringGreater [] ys = False"
| "stringGreater (x # xs) [] = True"
| "stringGreater (x # xs) (y # ys) =
     (if (of_char x :: nat) > of_char y then True
      else if (of_char x :: nat) < of_char y then False
      else stringGreater xs ys)"

subsection \<open>Blocks\<close>

text \<open>\<^verbatim>\<open>isBlocked\<close> returns the answer and the registry, from which an expired record is gone.\<close>

definition isBlocked :: "int \<Rightarrow> string \<Rightarrow> rateLimiter \<Rightarrow> bool \<times> rateLimiter" where
  "isBlocked now jid s =
     (case map_of (blockedUsers s) jid of
        None \<Rightarrow> (False, s)
      | Some b \<Rightarrow>
          (if now \<ge> blockedAt b + duration b
           then (False, s\<lparr>blockedUsers := AList.delete jid (blockedUsers s)\<rparr>)
           else (True, s)))"

definition getBlockInfo :: "string \<Rightarrow> rateLimiter \<Rightarrow> blockInfo option" where
  "getBlockInfo jid s = map_of (blockedUsers s) jid"

definition cleanupBlockedUsers :: "int \<Rightarrow> rateLimiter \<Rightarrow> rateLimiter" where
  "cleanupBlockedUsers now s =
     s\<lparr>blockedUsers :=
         filter (\<lambda>(jid, b). \<not> now \<ge> blockedAt b + duration b) (blockedUsers s)\<rparr>"

definition getBlockedUsers :: "int \<Rightarrow> rateLimiter \<Rightarrow> blockedEntry list" where
  "getBlockedUsers now s =
     map (\<lambda>(jid, b).
            \<lparr>userJid = jid, be_reason = reason b,
             remainingTime = max 0 (blockedAt b + duration b - now),
             be_blockedAt = blockedAt b\<rparr>)
         (blockedUsers s)"

subsection \<open>Admission\<close>

definition cleanOldEntries :: "userData \<Rightarrow> limitKey \<Rightarrow> int \<Rightarrow> userData" where
  "cleanOldEntries u k now =
     setActions u k (filter (\<lambda>time. time > now - 24 * 60 * 60 * 1000) (actionsOf u k))"

definition checkLimits :: "userData \<Rightarrow> limitKey \<Rightarrow> limitConfig \<Rightarrow> int \<Rightarrow> violation list" where
  "checkLimits u k lims now =
     (let actions = actionsOf u k;
          nMinute = length (filter (\<lambda>time. time > now - 60 * 1000) actions);
          nHour = length (filter (\<lambda>time. time > now - 60 * 60 * 1000) actions);
          nDay = length (filter (\<lambda>time. time > now - 24 * 60 * 60 * 1000) actions)
      in (if nMinute \<ge> limPerMinute lims
          then [\<lparr>vtype = perMinute, count = nMinute, limit = limPerMinute lims\<rparr>] else [])
       @ (if nHour \<ge> limPerHour lims
          then [\<lparr>vtype = perHour, count = nHour, limit = limPerHour lims\<rparr>] else [])
       @ (if nDay \<ge> limPerDay lims
          then [\<lparr>vtype = perDay, count = nDay, limit = limPerDay lims\<rparr>] else []))"

text \<open>
  \<^verbatim>\<open>violations.reduce((max, v) => sev(v) > sev(max) ? v : max)\<close> has no initial value:
  it starts from the first element and throws on an empty array. The only caller passes
  a non-empty array, which the model takes as its head \<open>v\<close> and tail \<open>vs\<close>.
\<close>

definition maxViolation :: "violation \<Rightarrow> violation list \<Rightarrow> violation" where
  "maxViolation v vs =
     foldl (\<lambda>mx w. if stringGreater (severityName (getViolationSeverity w))
                                      (severityName (getViolationSeverity mx))
                    then w else mx) v vs"

definition handleViolations ::
  "int \<Rightarrow> string \<Rightarrow> violation \<Rightarrow> violation list \<Rightarrow> string \<Rightarrow> rateLimiter
     \<Rightarrow> decision \<times> rateLimiter" where
  "handleViolations now jid v vs mt s =
     (let mx = maxViolation v vs;
          sv = getViolationSeverity mx;
          blockDuration = blockDurations sv
      in (BlockedNow sv blockDuration (v # vs),
          s\<lparr>blockedUsers :=
               AList.update jid
                 \<lparr>blockedAt = now, duration = blockDuration, reason = mx,
                  violations = v # vs, messageType = mt\<rparr>
                 (blockedUsers s)\<rparr>))"

definition shouldWarn ::
  "userData \<Rightarrow> limitKey \<Rightarrow> limitConfig \<Rightarrow> int \<Rightarrow> warningMessage option \<times> userData" where
  "shouldWarn u k lims now =
     (let nMinute = length (filter (\<lambda>time. time > now - 60 * 1000) (actionsOf u k));
          minuteThreshold = (limPerMinute lims * warningThresholds k) div 10
      in if nMinute \<ge> minuteThreshold \<and> now - lastWarning u > 5 * 60 * 1000
         then (Some (QuickWarning nMinute (limPerMinute lims)),
               u\<lparr>lastWarning := now, warningCount := warningCount u + 1\<rparr>)
         else (None, u))"

definition canSendMessage ::
  "int \<Rightarrow> string \<Rightarrow> string \<Rightarrow> rateLimiter \<Rightarrow> decision \<times> rateLimiter" where
  "canSendMessage now jid mt s0 =
     (case isBlocked now jid s0 of
        (True, s) \<Rightarrow> (BlockedInfo (getBlockInfo jid s), s)
      | (False, s) \<Rightarrow>
          (let key = userKey jid mt;
               u0 = (case userLimits s key of None \<Rightarrow> emptyUserData | Some u \<Rightarrow> u);
               k = (if mt = ''media'' then media else messages);
               lims = limits s k;
               u = cleanOldEntries u0 k now
           in case checkLimits u k lims now of
                v # vs \<Rightarrow>
                  handleViolations now jid v vs mt (s\<lparr>userLimits := (userLimits s)(key \<mapsto> u)\<rparr>)
              | [] \<Rightarrow>
                  (case shouldWarn u k lims now of
                     (w, u') \<Rightarrow> (Allowed w, s\<lparr>userLimits := (userLimits s)(key \<mapsto> u')\<rparr>))))"

definition recordAction :: "int \<Rightarrow> string \<Rightarrow> string \<Rightarrow> string \<Rightarrow> rateLimiter \<Rightarrow> rateLimiter" where
  "recordAction now jid actionType mt s =
     (let key = userKey jid mt;
          u = (case userLimits s key of None \<Rightarrow> emptyUserData | Some u \<Rightarrow> u);
          k = (if actionType = ''command'' then commands
               else if mt = ''media'' then media else messages)
      in s\<lparr>userLimits := (userLimits s)(key \<mapsto> setActions u k (actionsOf u k @ [now]))\<rparr>)"

subsection \<open>The usage protocol: check, then record\<close>

text \<open>
  The caller's protocol for one sender: for each message, at time \<open>now\<close>, ask
  \<^verbatim>\<open>canSendMessage\<close>, and call \<^verbatim>\<open>recordAction\<close> when the answer is allowed.
  The decisions are returned in order.
\<close>

definition checkAndRecord ::
  "int \<Rightarrow> string \<Rightarrow> string \<Rightarrow> rateLimiter \<Rightarrow> decision \<times> rateLimiter" where
  "checkAndRecord now jid mt s =
     (case canSendMessage now jid mt s of
        (d, s1) \<Rightarrow> (d, if allowed d then recordAction now jid ''message'' mt s1 else s1))"

fun checkThenRecord ::
  "string \<Rightarrow> string \<Rightarrow> int list \<Rightarrow> rateLimiter \<Rightarrow> decision list \<times> rateLimiter" where
  "checkThenRecord jid mt [] s = ([], s)"
| "checkThenRecord jid mt (now # ts) s =
     (case checkAndRecord now jid mt s of
        (d, s1) \<Rightarrow>
          (case checkThenRecord jid mt ts s1 of (ds, s2) \<Rightarrow> (d # ds, s2)))"

text \<open>The record a sender's key stands for: the stored one, or the initial one.\<close>

definition cur :: "rateLimiter \<Rightarrow> string \<Rightarrow> userData" where
  "cur s key = (case userLimits s key of None \<Rightarrow> emptyUserData | Some u \<Rightarrow> u)"


section \<open>The message handler (class MessageHandler)\<close>

subsection \<open>JavaScript values and errors\<close>

text \<open>
  A property that holds a string when it is present: \<^verbatim>\<open>undefined\<close>, \<^verbatim>\<open>null\<close> or a
  string. \<open>truthy\<close> is JavaScript's test in \<^verbatim>\<open>if (x)\<close> and \<^verbatim>\<open>x || y\<close>.
\<close>

datatype jsString = Undefined | Null | Str string

fun truthy :: "jsString \<Rightarrow> bool" where
  "truthy (Str s) = (s \<noteq> [])"
| "truthy Undefined = False"
| "truthy Null = False"

definition orElse :: "jsString \<Rightarrow> jsString \<Rightarrow> jsString" where
  "orElse a b = (if truthy a then a else b)"

datatype jsError = TypeError | RangeError | ConnectionError | ConstraintError

text \<open>
  Strings are byte strings here; \<^verbatim>\<open>toLowerCase\<close> folds the letters A to Z and leaves every
  other byte alone. \<^verbatim>\<open>includes\<close> is the test for a contiguous substring,
  \<^verbatim>\<open>endsWith\<close> the test for a suffix, and \<^verbatim>\<open>split('@')[0]\<close> the part before the first
  \<^verbatim>\<open>@\<close>.
\<close>

definition lowerChar :: "char \<Rightarrow> char" where
  "lowerChar c =
     (case map_of (zip ''ABCDEFGHIJKLMNOPQRSTUVWXYZ'' ''abcdefghijklmnopqrstuvwxyz'') c of
        Some l \<Rightarrow> l
      | None \<Rightarrow> c)"

definition toLowerCase :: "string \<Rightarrow> string" where
  "toLowerCase s = map lowerChar s"

fun stringIncludes :: "string \<Rightarrow> string \<Rightarrow> bool" where
  "stringIncludes [] k = (k = [])"
| "stringIncludes (c # cs) k = (take (length k) (c # cs) = k \<or> stringIncludes cs k)"

definition endsWith :: "string \<Rightarrow> string \<Rightarrow> bool" where
  "endsWith s suf = (length suf \<le> length s \<and> drop (length s - length suf) s = suf)"

definition beforeAt :: "string \<Rightarrow> string" where
  "beforeAt s = takeWhile (\<lambda>c. c \<noteq> CHR ''@'') s"

subsection \<open>Raw events\<close>

record messageKey =
  key_id :: string
  remoteJid :: string
  participant :: jsString
  fromMe :: bool

record contextInfo =
  stanzaId :: jsString
  isForwarded :: bool

record extendedTextMessage =
  etm_text :: jsString
  contextInfo :: "contextInfo option"

record mediaMessage =
  caption :: jsString
  url :: jsString
  mimetype :: jsString

record messageContent =
  conversation :: jsString
  extendedText :: "extendedTextMessage option"
  imageMessage :: "mediaMessage option"
  videoMessage :: "mediaMessage option"
  audioMessage :: "mediaMessage option"
  documentMessage :: "mediaMessage option"
  stickerMessage :: "mediaMessage option"

text \<open>
  \<open>messageTimestamp\<close> is in seconds; \<open>None\<close> is an event without the property.
  \<open>message\<close> is \<open>None\<close> on an event without a body.
\<close>

record rawEvent =
  key :: messageKey
  messageTimestamp :: "int option"
  message :: "messageContent option"

subsection \<open>The normalized record\<close>

text \<open>
  \<open>timestamp\<close> is the instant in milliseconds that the stored string
  (\<^verbatim>\<open>timestamp.toISOString()\<close>) denotes.
\<close>

record messageData =
  message_id :: string
  jid :: string
  sender_jid :: string
  message_type :: string
  content :: jsString
  media_url :: jsString
  media_type :: jsString
  timestamp :: int
  is_group :: bool
  group_jid :: "string option"
  reply_to :: jsString
  is_forwarded :: bool

text \<open>
  \<^verbatim>\<open>new Date(message.messageTimestamp * 1000)\<close> is an invalid date when the property is
  missing (the product is \<^verbatim>\<open>NaN\<close>) or when the product is beyond 8.64e15 in absolute
  value; \<^verbatim>\<open>toISOString\<close> on an invalid date throws a \<^verbatim>\<open>RangeError\<close>.
\<close>

definition toISOString :: "int option \<Rightarrow> jsError + int" where
  "toISOString ts =
     (case ts of
        None \<Rightarrow> Inl RangeError
      | Some t \<Rightarrow>
          (if \<bar>t * 1000\<bar> \<le> 8640000000000000 then Inr (t * 1000) else Inl RangeError))"

text \<open>The chain of \<^verbatim>\<open>if / else if\<close> over the payloads: (type, content, url, mime type).\<close>

definition payloadOf :: "messageContent option \<Rightarrow> string \<times> jsString \<times> jsString \<times> jsString" where
  "payloadOf body =
     (case body of
        None \<Rightarrow> (''text'', Str [], Null, Null)
      | Some m \<Rightarrow>
          if truthy (conversation m) then (''text'', conversation m, Null, Null)
          else case extendedText m of
            Some e \<Rightarrow> (''text'', etm_text e, Null, Null)
          | None \<Rightarrow>
          (case imageMessage m of
            Some p \<Rightarrow> (''image'', orElse (caption p) (Str []), url p, mimetype p)
          | None \<Rightarrow>
          (case videoMessage m of
            Some p \<Rightarrow> (''video'', orElse (caption p) (Str []), url p, mimetype p)
          | None \<Rightarrow>
          (case audioMessage m of
            Some p \<Rightarrow> (''audio'', Str [], url p, mimetype p)
          | None \<Rightarrow>
          (case documentMessage m of
            Some p \<Rightarrow> (''document'', orElse (caption p) (Str []), url p, mimetype p)
          | None \<Rightarrow>
          (case stickerMessage m of
            Some p \<Rightarrow> (''sticker'', Str [], url p, mimetype p)
          | None \<Rightarrow> (''text'', Str [], Null, Null)))))))"

definition contextOf :: "messageContent option \<Rightarrow> contextInfo option" where
  "contextOf body =
     (case body of
        None \<Rightarrow> None
      | Some m \<Rightarrow> (case extendedText m of None \<Rightarrow> None | Some e \<Rightarrow> contextInfo e))"

definition extractMessageData ::
  "rawEvent \<Rightarrow> string \<Rightarrow> bool \<Rightarrow> string option \<Rightarrow> jsError + messageData" where
  "extractMessageData ev senderJid isGroup groupJid =
     (case payloadOf (message ev) of
        (mtype, c, mediaUrl, mediaType) \<Rightarrow>
          (case toISOString (messageTimestamp ev) of
             Inl e \<Rightarrow> Inl e
           | Inr isoTime \<Rightarrow>
               Inr \<lparr>message_id = key_id (key ev),
                    jid = senderJid,
                    sender_jid = (case orElse (participant (key ev)) (Str senderJid) of
                                    Str p \<Rightarrow> p | _ \<Rightarrow> senderJid),
                    message_type = mtype,
                    content = c,
                    media_url = mediaUrl,
                    media_type = mediaType,
                    timestamp = isoTime,
                    is_group = isGroup,
                    group_jid = groupJid,
                    reply_to = (case contextOf (message ev) of
                                  None \<Rightarrow> Null
                                | Some ci \<Rightarrow> orElse (stanzaId ci) Null),
                    is_forwarded = (case contextOf (message ev) of
                                      None \<Rightarrow> False
                                    | Some ci \<Rightarrow> isForwarded ci)\<rparr>))"


subsection \<open>The database (class DatabaseManager)\<close>

text \<open>
  Each table is the list of its rows in insertion order. The columns that SQLite fills
  by itself (row id, creation times) are left out.
\<close>

record triggerRow =
  keyword :: string
  response :: string
  is_active :: bool
  match_type :: string
  case_sensitive :: bool

record spamLog =
  sl_user_jid :: string
  sl_message_id :: string
  sl_reason :: string
  sl_severity :: string
  sl_action_taken :: string

record userRow =
  u_jid :: string
  u_phone :: string
  u_message_count :: nat

record collectedRow =
  cd_type :: string
  cd_value :: string
  cd_source_jid :: string
  cd_message_id :: string

record database =
  t_messages :: "messageData list"
  t_users :: "userRow list"
  t_triggers :: "triggerRow list"
  t_spam_logs :: "spamLog list"
  t_collected_data :: "collectedRow list"
  t_bot_logs :: "(string \<times> string) list"

text \<open>\<^verbatim>\<open>INSERT OR IGNORE INTO messages\<close>: \<^verbatim>\<open>message_id\<close> is \<^verbatim>\<open>UNIQUE\<close>.\<close>

definition db_saveMessage :: "messageData \<Rightarrow> database \<Rightarrow> database" where
  "db_saveMessage md d =
     (if message_id md \<in> set (map message_id (t_messages d)) then d
      else d\<lparr>t_messages := t_messages d @ [md]\<rparr>)"

text \<open>\<^verbatim>\<open>INSERT OR REPLACE INTO users\<close> (\<^verbatim>\<open>jid\<close> is \<^verbatim>\<open>UNIQUE\<close>): the old row goes, the
  new one has the default count.\<close>

definition db_createUser :: "string \<Rightarrow> string \<Rightarrow> database \<Rightarrow> database" where
  "db_createUser j phone d =
     d\<lparr>t_users := filter (\<lambda>r. u_jid r \<noteq> j) (t_users d)
                    @ [\<lparr>u_jid = j, u_phone = phone, u_message_count = 0\<rparr>]\<rparr>"

definition db_updateUserActivity :: "string \<Rightarrow> database \<Rightarrow> database" where
  "db_updateUserActivity j d =
     d\<lparr>t_users := map (\<lambda>r. if u_jid r = j then r\<lparr>u_message_count := u_message_count r + 1\<rparr> else r)
                        (t_users d)\<rparr>"

definition getActiveTriggers :: "database \<Rightarrow> triggerRow list" where
  "getActiveTriggers d = filter is_active (t_triggers d)"

text \<open>\<^verbatim>\<open>INSERT INTO triggers\<close>: \<^verbatim>\<open>keyword\<close> is \<^verbatim>\<open>UNIQUE\<close>, so the insertion is rejected
  when a row has the keyword; \<^verbatim>\<open>is_active\<close> defaults to 1.\<close>

definition db_addTrigger ::
  "string \<Rightarrow> string \<Rightarrow> string \<Rightarrow> bool \<Rightarrow> database \<Rightarrow> jsError + database" where
  "db_addTrigger kw resp matchType caseSensitive d =
     (if kw \<in> set (map keyword (t_triggers d)) then Inl ConstraintError
      else Inr (d\<lparr>t_triggers := t_triggers d @
                   [\<lparr>keyword = kw, response = resp, is_active = True,
                     match_type = matchType, case_sensitive = caseSensitive\<rparr>]\<rparr>))"

text \<open>\<^verbatim>\<open>DELETE FROM triggers WHERE keyword = ?\<close> succeeds whether or not a row matches.\<close>

definition db_removeTrigger :: "string \<Rightarrow> database \<Rightarrow> database" where
  "db_removeTrigger kw d = d\<lparr>t_triggers := filter (\<lambda>r. keyword r \<noteq> kw) (t_triggers d)\<rparr>"

definition db_logSpam ::
  "string \<Rightarrow> string \<Rightarrow> string \<Rightarrow> string \<Rightarrow> string \<Rightarrow> database \<Rightarrow> database" where
  "db_logSpam j mid rsn sev act d =
     d\<lparr>t_spam_logs := t_spam_logs d @
         [\<lparr>sl_user_jid = j, sl_message_id = mid, sl_reason = rsn,
           sl_severity = sev, sl_action_taken = act\<rparr>]\<rparr>"

definition db_saveCollectedData ::
  "string \<Rightarrow> string \<Rightarrow> string \<Rightarrow> string \<Rightarrow> database \<Rightarrow> database" where
  "db_saveCollectedData ty v src mid d =
     d\<lparr>t_collected_data := t_collected_data d @
         [\<lparr>cd_type = ty, cd_value = v, cd_source_jid = src, cd_message_id = mid\<rparr>]\<rparr>"

definition db_log :: "string \<Rightarrow> string \<Rightarrow> database \<Rightarrow> database" where
  "db_log lvl msg d = d\<lparr>t_bot_logs := t_bot_logs d @ [(lvl, msg)]\<rparr>"

text \<open>
  The query of \<^verbatim>\<open>checkSpam\<close>,
  \<^verbatim>\<open>timestamp > datetime("now", "-5 minutes")\<close>, compares two texts: the stored
  \<^verbatim>\<open>YYYY-MM-DDTHH:MM:SS.sssZ\<close> and SQLite's \<^verbatim>\<open>YYYY-MM-DD HH:MM:SS\<close>. The first ten
  characters of each are the UTC date; where the dates agree, the eleventh characters
  \<^verbatim>\<open>T\<close> and the space decide, and \<^verbatim>\<open>T\<close> is the greater. A stored text outside the
  years 0000 to 9999 starts with a sign, which is below every digit. So the stored text is
  the greater exactly when its year has four digits and its date is not before the date
  of the threshold. SQLite's \<^verbatim>\<open>datetime\<close> is defined for thresholds in the years 0000
  to 9999.
\<close>

definition utcDay :: "int \<Rightarrow> int" where
  "utcDay t = t div 86400000"

definition fourDigitYear :: "int \<Rightarrow> bool" where
  "fourDigitYear t = (- 62167219200000 \<le> t \<and> t < 253402300800000)"

definition timestampAfter :: "int \<Rightarrow> int \<Rightarrow> bool" where
  "timestampAfter t threshold = (fourDigitYear t \<and> utcDay threshold \<le> utcDay t)"

definition recentMessageCount :: "int \<Rightarrow> string \<Rightarrow> database \<Rightarrow> nat" where
  "recentMessageCount now j d =
     length (filter (\<lambda>m. sender_jid m = j \<and> timestampAfter (timestamp m) (now - 5 * 60 * 1000))
               (t_messages d))"

subsection \<open>The handler\<close>

text \<open>
  \<open>sendCalls\<close> lists the calls of \<^verbatim>\<open>whatsapp.sendText(jid, text)\<close> in order; a call
  throws when the transport is not connected. \<open>SlowDown name\<close> stands for the text
  \<^verbatim>\<open>@${name}, please slow down your messages to avoid being flagged as spam.\<close>
  The regular expressions are parameters: \<open>regexTest keyword caseSensitive content\<close> is
  \<open>None\<close> when \<^verbatim>\<open>new RegExp\<close> throws, and \<open>phoneMatches\<close> and
  \<open>urlMatches\<close> give the matches of the two fixed patterns of \<^verbatim>\<open>collectData\<close>.
\<close>

datatype messageBody = Text string | SlowDown string

record sendCall =
  to :: string
  body :: messageBody

record handler =
  db :: database
  triggers :: "triggerRow list"
  connected :: bool
  sendCalls :: "sendCall list"

record builtins =
  regexTest :: "string \<Rightarrow> bool \<Rightarrow> string \<Rightarrow> bool option"
  phoneMatches :: "string \<Rightarrow> string list"
  urlMatches :: "string \<Rightarrow> string list"

record config =
  spamThreshold :: nat
  collectPhoneNumbers :: bool
  collectUrls :: bool
  collectMedia :: bool

definition sendText :: "string \<Rightarrow> messageBody \<Rightarrow> handler \<Rightarrow> jsError option \<times> handler" where
  "sendText j b h =
     (if connected h then None else Some ConnectionError,
      h\<lparr>sendCalls := sendCalls h @ [\<lparr>to = j, body = b\<rparr>]\<rparr>)"

definition saveMessageToDatabase :: "messageData \<Rightarrow> handler \<Rightarrow> handler" where
  "saveMessageToDatabase md h = h\<lparr>db := db_saveMessage md (db h)\<rparr>"

definition updateUserActivity :: "string \<Rightarrow> handler \<Rightarrow> handler" where
  "updateUserActivity j h =
     h\<lparr>db := db_updateUserActivity j (db_createUser j (beforeAt j) (db h))\<rparr>"

definition loadTriggers :: "handler \<Rightarrow> handler" where
  "loadTriggers h = h\<lparr>triggers := getActiveTriggers (db h)\<rparr>"

text \<open>
  The \<^verbatim>\<open>switch\<close> of \<^verbatim>\<open>processTriggers\<close> for one rule: \<open>raw\<close> is
  \<^verbatim>\<open>messageData.content\<close> and \<open>lowered\<close> is \<^verbatim>\<open>content\<close>, its lower-case form.
  \<open>None\<close> is the \<^verbatim>\<open>continue\<close> after an invalid pattern.
\<close>

definition shouldRespond :: "builtins \<Rightarrow> string \<Rightarrow> string \<Rightarrow> triggerRow \<Rightarrow> bool option" where
  "shouldRespond env raw lowered t =
     (if match_type t = ''exact'' then
        (let triggerWord = (if case_sensitive t then keyword t else toLowerCase (keyword t));
             messageWord = (if case_sensitive t then raw else lowered)
         in Some (messageWord = triggerWord))
      else if match_type t = ''contains'' then
        (let kw = (if case_sensitive t then keyword t else toLowerCase (keyword t))
         in Some (stringIncludes lowered kw))
      else if match_type t = ''regex'' then regexTest env (keyword t) (case_sensitive t) raw
      else Some False)"

definition respond :: "messageData \<Rightarrow> triggerRow \<Rightarrow> handler \<Rightarrow> handler" where
  "respond md t h =
     (case sendText (jid md) (Text (response t)) h of
        (None, h1) \<Rightarrow> h1\<lparr>db := db_log ''info'' ''Trigger response sent'' (db h1)\<rparr>
      | (Some e, h1) \<Rightarrow> h1)"

fun triggerLoop ::
  "builtins \<Rightarrow> messageData \<Rightarrow> string \<Rightarrow> triggerRow list \<Rightarrow> handler \<Rightarrow> handler" where
  "triggerLoop env md raw [] h = h"
| "triggerLoop env md raw (t # ts) h =
     triggerLoop env md raw ts
       (if shouldRespond env raw (toLowerCase raw) t = Some True then respond md t h else h)"

definition processTriggers :: "builtins \<Rightarrow> messageData \<Rightarrow> handler \<Rightarrow> handler" where
  "processTriggers env md h =
     (case content md of
        Str raw \<Rightarrow> (if raw = [] then h else triggerLoop env md raw (triggers h) h)
      | _ \<Rightarrow> h)"

text \<open>
  \<^verbatim>\<open>collectData\<close>: with a content that is not a string, the first \<^verbatim>\<open>content.match\<close>
  throws, and the \<^verbatim>\<open>catch\<close> leaves what was saved before.
\<close>

definition collectData :: "builtins \<Rightarrow> config \<Rightarrow> messageData \<Rightarrow> handler \<Rightarrow> handler" where
  "collectData env cfg md h =
     (if \<not> collectPhoneNumbers cfg \<and> \<not> collectUrls cfg \<and> \<not> collectMedia cfg then h
      else
        (let save = (\<lambda>ty d v. db_saveCollectedData ty v (sender_jid md) (message_id md) d);
             media = (\<lambda>d. if collectMedia cfg \<and> truthy (media_url md)
                           then (case media_url md of
                                   Str u \<Rightarrow> save ''media'' d u | _ \<Rightarrow> d)
                           else d)
         in case content md of
              Str c \<Rightarrow>
                (let d1 = (if collectPhoneNumbers cfg
                           then foldl (save ''phone'') (db h) (phoneMatches env c) else db h);
                     d2 = (if collectUrls cfg
                           then foldl (save ''url'') d1 (urlMatches env c) else d1)
                 in h\<lparr>db := media d2\<rparr>)
            | _ \<Rightarrow>
                (if collectPhoneNumbers cfg \<or> collectUrls cfg then h
                 else h\<lparr>db := media (db h)\<rparr>)))"

definition checkSpam :: "config \<Rightarrow> int \<Rightarrow> messageData \<Rightarrow> handler \<Rightarrow> handler" where
  "checkSpam cfg now md h =
     (let userJid = sender_jid md;
          messageCount = recentMessageCount now userJid (db h)
      in if messageCount > spamThreshold cfg then
           (let h1 = h\<lparr>db := db_logSpam userJid (message_id md) ''High message frequency''
                                ''medium'' ''flagged'' (db h)\<rparr>
            in if is_group md then snd (sendText (jid md) (SlowDown (beforeAt userJid)) h1)
               else h1)
         else h)"

definition processMessage ::
  "builtins \<Rightarrow> config \<Rightarrow> int \<Rightarrow> rawEvent \<Rightarrow> handler \<Rightarrow> jsError + handler" where
  "processMessage env cfg now ev h =
     (let senderJid = remoteJid (key ev);
          isGroup = endsWith senderJid ''@g.us'';
          groupJid = (if isGroup then Some senderJid else None);
          participantJid = (case orElse (participant (key ev)) (Str senderJid) of
                              Str p \<Rightarrow> p | _ \<Rightarrow> senderJid)
      in if fromMe (key ev) then Inr h
         else case extractMessageData ev senderJid isGroup groupJid of
                Inl e \<Rightarrow> Inl e
              | Inr md \<Rightarrow>
                  (let h1 = saveMessageToDatabase md h;
                       h2 = updateUserActivity participantJid h1;
                       h3 = processTriggers env md h2;
                       h4 = collectData env cfg md h3;
                       h5 = checkSpam cfg now md h4
                   in Inr (h5\<lparr>db := db_log ''info'' ''Message processed'' (db h5)\<rparr>)))"

text \<open>The callback registered by \<^verbatim>\<open>setupMessageProcessing\<close>: it catches what
  \<^verbatim>\<open>processMessage\<close> throws and logs it.\<close>

definition onMessage :: "builtins \<Rightarrow> config \<Rightarrow> int \<Rightarrow> rawEvent \<Rightarrow> handler \<Rightarrow> handler" where
  "onMessage env cfg now ev h =
     (case processMessage env cfg now ev h of
        Inr h' \<Rightarrow> h'
      | Inl e \<Rightarrow> h\<lparr>db := db_log ''error'' ''Message processing failed'' (db h)\<rparr>)"

definition addTrigger ::
  "string \<Rightarrow> string \<Rightarrow> string \<Rightarrow> bool \<Rightarrow> handler \<Rightarrow> bool \<times> handler" where
  "addTrigger kw resp matchType caseSensitive h =
     (case db_addTrigger kw resp matchType caseSensitive (db h) of
        Inl e \<Rightarrow> (False, h)
      | Inr d \<Rightarrow> (True, loadTriggers (h\<lparr>db := d\<rparr>)))"

definition removeTrigger :: "string \<Rightarrow> handler \<Rightarrow> bool \<times> handler" where
  "removeTrigger kw h = (True, loadTriggers (h\<lparr>db := db_removeTrigger kw (db h)\<rparr>))"

section \<open>Auxiliary definitions and example states\<close>

text \<open>
  The decision of check number \<open>i + 1\<close> in a burst of a fresh sender under the default
  limits, as the theorems below establish it.
\<close>

definition expectedDecision :: "nat \<Rightarrow> decision" where
  "expectedDecision i =
     (if i = 16 then Allowed (Some (QuickWarning 16 20))
      else if i < 20 then Allowed None
      else BlockedNow soft 300000 [\<lparr>vtype = perMinute, count = 20, limit = 20\<rparr>])"

text \<open>
  Twenty-one instants, one second apart.
\<close>

definition burstTimes :: "int list" where
  "burstTimes =
     [1000000, 1001000, 1002000, 1003000, 1004000, 1005000, 1006000, 1007000, 1008000,
      1009000, 1010000, 1011000, 1012000, 1013000, 1014000, 1015000, 1016000, 1017000,
      1018000, 1019000, 1020000]"

text \<open>
  A block of 30 minutes created at 1000000: it expires at 2800000.
\<close>

definition exampleBlock :: blockInfo where
  "exampleBlock = \<lparr>blockedAt = 1000000, duration = 1800000,
     reason = \<lparr>vtype = perMinute, count = 30, limit = 20\<rparr>,
     violations = [\<lparr>vtype = perMinute, count = 30, limit = 20\<rparr>], messageType = ''text''\<rparr>"

definition blockedLimiter :: rateLimiter where
  "blockedLimiter = newRateLimiter\<lparr>blockedUsers := [(''u@s.whatsapp.net'', exampleBlock)]\<rparr>"

text \<open>
  Violations of the three windows of the message limits.
\<close>

definition vMinute :: violation where "vMinute = \<lparr>vtype = perMinute, count = 20, limit = 20\<rparr>"

definition vHour :: violation where "vHour = \<lparr>vtype = perHour, count = 100, limit = 100\<rparr>"

definition vDay :: violation where "vDay = \<lparr>vtype = perDay, count = 500, limit = 500\<rparr>"

definition vHourSevere :: violation where "vHourSevere = \<lparr>vtype = perHour, count = 210, limit = 100\<rparr>"

text \<open>
  A sender with 210 recorded messages in the last hour, 20 of them in the last minute,
  checked at 10000000.
\<close>

definition busyLimiter :: rateLimiter where
  "busyLimiter = newRateLimiter\<lparr>userLimits :=
     [userKey ''u'' ''text'' \<mapsto>
        emptyUserData\<lparr>ud_messages := replicate 190 9000000 @ replicate 20 9990000\<rparr>]\<rparr>"

definition helpTrigger :: triggerRow where
  "helpTrigger = \<lparr>keyword = ''help'', response = ''Available commands'', is_active = True,
     match_type = ''exact'', case_sensitive = False\<rparr>"

definition helloTrigger :: triggerRow where
  "helloTrigger = \<lparr>keyword = ''Hello'', response = ''Hi there!'', is_active = True,
     match_type = ''contains'', case_sensitive = True\<rparr>"

definition emptyDatabase :: database where
  "emptyDatabase = \<lparr>t_messages = [], t_users = [], t_triggers = [], t_spam_logs = [],
     t_collected_data = [], t_bot_logs = []\<rparr>"

definition exampleHandler :: handler where
  "exampleHandler = \<lparr>db = emptyDatabase\<lparr>t_triggers := [helpTrigger]\<rparr>,
     triggers = [helpTrigger], connected = True, sendCalls = []\<rparr>"

definition noTimestampEvent :: rawEvent where
  "noTimestampEvent =
     \<lparr>key = \<lparr>key_id = ''M1'', remoteJid = ''111@s.whatsapp.net'', participant = Undefined,
              fromMe = False\<rparr>,
      messageTimestamp = None,
      message = Some \<lparr>conversation = Str ''help'', extendedText = None, imageMessage = None,
                       videoMessage = None, audioMessage = None, documentMessage = None,
                       stickerMessage = None\<rparr>\<rparr>"

text \<open>
  The calls of \<^verbatim>\<open>sendText\<close> that \<^verbatim>\<open>processTriggers\<close> makes for a message against
  the rules \<open>ts\<close>: one for each rule that fires, in order, and none for a message
  without text.
\<close>

definition triggerCalls :: "builtins \<Rightarrow> messageData \<Rightarrow> triggerRow list \<Rightarrow> sendCall list" where
  "triggerCalls env md ts =
     (case content md of
        Str raw \<Rightarrow>
          (if raw = [] then []
           else map (\<lambda>t. \<lparr>to = jid md, body = Text (response t)\<rparr>)
                  (filter (\<lambda>t. shouldRespond env raw (toLowerCase raw) t = Some True) ts))
      | _ \<Rightarrow> [])"

text \<open>
  The row that \<^verbatim>\<open>checkSpam\<close> logs, and the warning that it sends into a group.
\<close>

definition spamRow :: "messageData \<Rightarrow> spamLog" where
  "spamRow md = \<lparr>sl_user_jid = sender_jid md, sl_message_id = message_id md,
     sl_reason = ''High message frequency'', sl_severity = ''medium'',
     sl_action_taken = ''flagged''\<rparr>"

definition spamWarning :: "messageData \<Rightarrow> sendCall" where
  "spamWarning md = \<lparr>to = jid md, body = SlowDown (beforeAt (sender_jid md))\<rparr>"



text \<open>
  The call of \<^verbatim>\<open>extractMessageData\<close> that \<^verbatim>\<open>processMessage\<close> makes.
\<close>

definition normalizeEvent :: "rawEvent \<Rightarrow> jsError + messageData" where
  "normalizeEvent ev =
     extractMessageData ev (remoteJid (key ev)) (endsWith (remoteJid (key ev)) ''@g.us'')
       (if endsWith (remoteJid (key ev)) ''@g.us'' then Some (remoteJid (key ev)) else None)"

definition exampleBuiltins :: builtins where
  "exampleBuiltins = \<lparr>regexTest = (\<lambda>k c s. None), phoneMatches = (\<lambda>s. []),
     urlMatches = (\<lambda>s. [])\<rparr>"

definition exampleConfig :: config where
  "exampleConfig = \<lparr>spamThreshold = 5, collectPhoneNumbers = False, collectUrls = False,
     collectMedia = False\<rparr>"

definition textContent :: "string \<Rightarrow> messageContent" where
  "textContent s = \<lparr>conversation = Str s, extendedText = None, imageMessage = None,
     videoMessage = None, audioMessage = None, documentMessage = None, stickerMessage = None\<rparr>"

definition blockedSenderEvent :: rawEvent where
  "blockedSenderEvent =
     \<lparr>key = \<lparr>key_id = ''M2'', remoteJid = ''u@s.whatsapp.net'', participant = Undefined,
              fromMe = False\<rparr>,
      messageTimestamp = Some 2000,
      message = Some (textContent ''help'')\<rparr>"

definition blockedSenderMessage :: messageData where
  "blockedSenderMessage =
     \<lparr>message_id = ''M2'', jid = ''u@s.whatsapp.net'', sender_jid = ''u@s.whatsapp.net'',
      message_type = ''text'', content = Str ''help'', media_url = Null, media_type = Null,
      timestamp = 2000000, is_group = False, group_jid = None, reply_to = Null,
      is_forwarded = False\<rparr>"

definition groupMessage :: "string \<Rightarrow> int \<Rightarrow> messageData" where
  "groupMessage mid t =
     \<lparr>message_id = mid, jid = ''g1@g.us'', sender_jid = ''s1@s.whatsapp.net'',
      message_type = ''text'', content = Str ''hi'', media_url = Null, media_type = Null,
      timestamp = t, is_group = True, group_jid = Some ''g1@g.us'', reply_to = Null,
      is_forwarded = False\<rparr>"

text \<open>
  A group sender's sixth message within five minutes: five are stored, and the clock
  reads 1700000300000.
\<close>

definition sixthEvent :: rawEvent where
  "sixthEvent =
     \<lparr>key = \<lparr>key_id = ''G6'', remoteJid = ''g1@g.us'', participant = Str ''s1@s.whatsapp.net'',
              fromMe = False\<rparr>,
      messageTimestamp = Some 1700000250,
      message = Some (textContent ''hi'')\<rparr>"

definition spamHandler :: handler where
  "spamHandler =
     \<lparr>db = emptyDatabase\<lparr>t_messages :=
             [groupMessage ''G1'' 1700000010000, groupMessage ''G2'' 1700000060000,
              groupMessage ''G3'' 1700000110000, groupMessage ''G4'' 1700000160000,
              groupMessage ''G5'' 1700000210000]\<rparr>,
      triggers = [], connected = True, sendCalls = []\<rparr>"




definition pingMessage :: messageData where
  "pingMessage =
     \<lparr>message_id = ''M3'', jid = ''v@s.whatsapp.net'', sender_jid = ''v@s.whatsapp.net'',
      message_type = ''text'', content = Str ''ping'', media_url = Null, media_type = Null,
      timestamp = 2000000, is_group = False, group_jid = None, reply_to = Null,
      is_forwarded = False\<rparr>"


section \<open>Properties\<close>

subsection \<open>A burst of messages from a fresh sender\<close>

lemma filter_all: "\<forall>x\<in>set xs. P x \<Longrightarrow> filter P xs = xs"
  by (induction xs) auto

lemma setActions_same [simp]: "setActions u k (actionsOf u k) = u"
  by (cases k) simp_all

lemma text_not_media: "(''text'' = ''media'') = False"
  by simp

lemma canSend_text_below:
  assumes mt: "mt \<noteq> ''media''"
    and nb: "map_of (blockedUsers s) sender = None"
    and lim: "limits s messages = defaultLimits messages"
    and win: "\<forall>t\<in>set (ud_messages (cur s (userKey sender mt))). now - 60000 < t"
    and n: "length (ud_messages (cur s (userKey sender mt))) < 20"
  shows "canSendMessage now sender mt s =
     (case shouldWarn (cur s (userKey sender mt)) messages (defaultLimits messages) now of
        (w, u') \<Rightarrow> (Allowed w, s\<lparr>userLimits := (userLimits s)(userKey sender mt \<mapsto> u')\<rparr>))"
proof -
  let ?u = "cur s (userKey sender mt)"
  have f1: "filter (\<lambda>time. now - 60 * 1000 < time) (ud_messages ?u) = ud_messages ?u"
    using win by (intro filter_all) auto
  have f2: "filter (\<lambda>time. now - 60 * 60 * 1000 < time) (ud_messages ?u) = ud_messages ?u"
    using win by (intro filter_all) auto
  have f3: "filter (\<lambda>time. now - 24 * 60 * 60 * 1000 < time) (ud_messages ?u) = ud_messages ?u"
    using win by (intro filter_all) auto
  have cl: "cleanOldEntries ?u messages now = ?u"
    unfolding cleanOldEntries_def using f3 by simp
  have ck: "checkLimits ?u messages (defaultLimits messages) now = []"
    unfolding checkLimits_def Let_def using f1 f2 f3 n by simp
  show ?thesis
    unfolding canSendMessage_def isBlocked_def Let_def
    using mt nb lim cl ck by (simp add: cur_def)
qed

lemma canSend_text_at_limit:
  assumes mt: "mt \<noteq> ''media''"
    and nb: "map_of (blockedUsers s) sender = None"
    and lim: "limits s messages = defaultLimits messages"
    and win: "\<forall>t\<in>set (ud_messages (cur s (userKey sender mt))). now - 60000 < t"
    and n: "length (ud_messages (cur s (userKey sender mt))) = 20"
  shows "fst (canSendMessage now sender mt s) =
     BlockedNow soft 300000 [\<lparr>vtype = perMinute, count = 20, limit = 20\<rparr>]"
proof -
  let ?u = "cur s (userKey sender mt)"
  have f1: "filter (\<lambda>time. now - 60 * 1000 < time) (ud_messages ?u) = ud_messages ?u"
    using win by (intro filter_all) auto
  have f2: "filter (\<lambda>time. now - 60 * 60 * 1000 < time) (ud_messages ?u) = ud_messages ?u"
    using win by (intro filter_all) auto
  have f3: "filter (\<lambda>time. now - 24 * 60 * 60 * 1000 < time) (ud_messages ?u) = ud_messages ?u"
    using win by (intro filter_all) auto
  have cl: "cleanOldEntries ?u messages now = ?u"
    unfolding cleanOldEntries_def using f3 by simp
  have ck: "checkLimits ?u messages (defaultLimits messages) now =
      [\<lparr>vtype = perMinute, count = 20, limit = 20\<rparr>]"
    unfolding checkLimits_def Let_def using f1 f2 f3 n by simp
  have sv: "getViolationSeverity \<lparr>vtype = perMinute, count = 20, limit = 20\<rparr> = soft"
    by (simp add: getViolationSeverity_def ratio_def)
  show ?thesis
    unfolding canSendMessage_def isBlocked_def Let_def
    using mt nb lim cl ck sv by (simp add: cur_def handleViolations_def maxViolation_def Let_def)
qed

lemma round_below:
  assumes nb: "map_of (blockedUsers s) sender = None"
    and lim: "limits s messages = defaultLimits messages"
    and win: "\<forall>t\<in>set (ud_messages (cur s (userKey sender ''text''))). now - 60000 < t"
    and n: "length (ud_messages (cur s (userKey sender ''text''))) < 20"
  defines "u \<equiv> cur s (userKey sender ''text'')"
  defines "warn \<equiv> (16 \<le> length (ud_messages u) \<and> 300000 < now - lastWarning u)"
  defines "r \<equiv> checkAndRecord now sender ''text'' s"
  shows "fst r = Allowed (if warn then Some (QuickWarning (length (ud_messages u)) 20) else None)"
    and "blockedUsers (snd r) = blockedUsers s"
    and "limits (snd r) = limits s"
    and "ud_messages (cur (snd r) (userKey sender ''text'')) = ud_messages u @ [now]"
    and "lastWarning (cur (snd r) (userKey sender ''text'')) = (if warn then now else lastWarning u)"
proof -
  have f1: "filter (\<lambda>time. now - 60 * 1000 < time) (ud_messages u) = ud_messages u"
    using win unfolding u_def by (intro filter_all) auto
  have sw: "shouldWarn u messages (defaultLimits messages) now =
      (if warn then (Some (QuickWarning (length (ud_messages u)) 20),
                     u\<lparr>lastWarning := now, warningCount := warningCount u + 1\<rparr>)
       else (None, u))"
    unfolding shouldWarn_def Let_def warn_def using f1 by simp
  have cs: "canSendMessage now sender ''text'' s =
     (case shouldWarn u messages (defaultLimits messages) now of
        (w, u') \<Rightarrow> (Allowed w, s\<lparr>userLimits := (userLimits s)(userKey sender ''text'' \<mapsto> u')\<rparr>))"
    unfolding u_def using canSend_text_below [OF _ nb lim win n] by simp
  show "fst r = Allowed (if warn then Some (QuickWarning (length (ud_messages u)) 20) else None)"
    unfolding r_def checkAndRecord_def cs sw by simp
  show "blockedUsers (snd r) = blockedUsers s"
    unfolding r_def checkAndRecord_def cs sw by (simp add: recordAction_def Let_def)
  show "limits (snd r) = limits s"
    unfolding r_def checkAndRecord_def cs sw by (simp add: recordAction_def Let_def)
  show "ud_messages (cur (snd r) (userKey sender ''text'')) = ud_messages u @ [now]"
    unfolding r_def checkAndRecord_def cs sw by (simp add: recordAction_def Let_def cur_def)
  show "lastWarning (cur (snd r) (userKey sender ''text'')) = (if warn then now else lastWarning u)"
    unfolding r_def checkAndRecord_def cs sw by (simp add: recordAction_def Let_def cur_def)
qed

lemma scenario_from:
  assumes "map_of (blockedUsers s) sender = None"
    and "limits s messages = defaultLimits messages"
    and "\<forall>t\<in>set (ud_messages (cur s (userKey sender ''text''))). T \<le> t \<and> t < T + 60000"
    and "\<forall>t\<in>set ts. T \<le> t \<and> t < T + 60000"
    and "300000 < T"
    and "length (ud_messages (cur s (userKey sender ''text''))) = k"
    and "k + length ts \<le> 21"
    and "k \<le> 16 \<longrightarrow> lastWarning (cur s (userKey sender ''text'')) = 0"
    and "16 < k \<longrightarrow> T \<le> lastWarning (cur s (userKey sender ''text''))"
  shows "fst (checkThenRecord sender ''text'' ts s) = map expectedDecision [k ..< k + length ts]"
  using assms
proof (induction ts arbitrary: s k)
  case Nil
  then show ?case by simp
next
  case (Cons now ts)
  let ?key = "userKey sender ''text''"
  let ?u = "cur s ?key"
  let ?r = "checkAndRecord now sender ''text'' s"
  have now: "T \<le> now" "now < T + 60000" using Cons.prems(4) by auto
  have win: "\<forall>t\<in>set (ud_messages ?u). now - 60000 < t"
    using Cons.prems(3) now by auto
  have up: "[k ..< k + length (now # ts)] = k # [Suc k ..< Suc k + length ts]"
    by (simp add: upt_rec)
  show ?case
  proof (cases "k = 20")
    case True
    then have ts: "ts = []" using Cons.prems(7) by simp
    have "fst (canSendMessage now sender ''text'' s) =
        BlockedNow soft 300000 [\<lparr>vtype = perMinute, count = 20, limit = 20\<rparr>]"
      using canSend_text_at_limit [OF _ Cons.prems(1) Cons.prems(2) win] Cons.prems(6) True by simp
    then have "fst ?r = expectedDecision 20"
      by (cases "canSendMessage now sender ''text'' s") (simp add: checkAndRecord_def expectedDecision_def)
    then show ?thesis using True ts by (cases ?r) simp
  next
    case False
    then have k: "k < 20" using Cons.prems(7) by simp
    then have n: "length (ud_messages ?u) < 20" using Cons.prems(6) by simp
    note rb = round_below [OF Cons.prems(1) Cons.prems(2) win n]
    have warn: "(16 \<le> length (ud_messages ?u) \<and> 300000 < now - lastWarning ?u) = (k = 16)"
      using Cons.prems(5,6,8,9) now by auto
    have d: "fst ?r = expectedDecision k"
      using rb(1) warn k Cons.prems(6) by (auto simp: expectedDecision_def)
    have IH: "fst (checkThenRecord sender ''text'' ts (snd ?r)) =
        map expectedDecision [Suc k ..< Suc k + length ts]"
    proof (rule Cons.IH)
      show "map_of (blockedUsers (snd ?r)) sender = None" using rb(2) Cons.prems(1) by simp
      show "limits (snd ?r) messages = defaultLimits messages" using rb(3) Cons.prems(2) by simp
      show "\<forall>t\<in>set (ud_messages (cur (snd ?r) ?key)). T \<le> t \<and> t < T + 60000"
        using rb(4) Cons.prems(3) now by auto
      show "\<forall>t\<in>set ts. T \<le> t \<and> t < T + 60000" using Cons.prems(4) by simp
      show "300000 < T" by fact
      show "length (ud_messages (cur (snd ?r) ?key)) = Suc k" using rb(4) Cons.prems(6) by simp
      show "Suc k + length ts \<le> 21" using Cons.prems(7) by simp
      show "Suc k \<le> 16 \<longrightarrow> lastWarning (cur (snd ?r) ?key) = 0"
        using rb(5) warn Cons.prems(8) by auto
      show "16 < Suc k \<longrightarrow> T \<le> lastWarning (cur (snd ?r) ?key)"
        using rb(5) warn Cons.prems(9) now by auto
    qed
    show ?thesis
      unfolding up using d IH
      by (cases ?r; cases "checkThenRecord sender ''text'' ts (snd ?r)") simp
  qed
qed

lemma expected_list:
  "map expectedDecision [0 ..< 21] =
     replicate 16 (Allowed None) @ [Allowed (Some (QuickWarning 16 20))] @
     replicate 3 (Allowed None) @
     [BlockedNow soft 300000 [\<lparr>vtype = perMinute, count = 20, limit = 20\<rparr>]]"
  by (simp add: upt_rec expectedDecision_def eval_nat_numeral)

text \<open>
  Claim C3, amended. A sender with no stored activity, warning or block sends 21 text
  messages, all inside one span of less than 60 seconds, under the default limits, each
  one checked and then recorded, with a clock past its first five minutes (the initial
  \<open>lastWarning\<close> is 0). Checks 1 to 20 are allowed and check 21 is blocked, with severity
  soft and a duration of 300000 ms. The warning comes with check 17, the first one that
  finds 16 recorded messages: the check counts the messages recorded before it.
\<close>

theorem checkThenRecord_burst:
  assumes "map_of (blockedUsers s) sender = None"
    and "userLimits s (userKey sender ''text'') = None"
    and "limits s messages = defaultLimits messages"
    and "length ts = 21"
    and "\<forall>t\<in>set ts. T \<le> t \<and> t < T + 60000"
    and "300000 < T"
  shows "fst (checkThenRecord sender ''text'' ts s) =
     replicate 16 (Allowed None) @ [Allowed (Some (QuickWarning 16 20))] @
     replicate 3 (Allowed None) @
     [BlockedNow soft 300000 [\<lparr>vtype = perMinute, count = 20, limit = 20\<rparr>]]"
proof -
  have c: "cur s (userKey sender ''text'') = emptyUserData"
    using assms(2) by (simp add: cur_def)
  have "fst (checkThenRecord sender ''text'' ts s) = map expectedDecision [0 ..< 0 + length ts]"
    by (rule scenario_from [where T = T])
       (use assms c in \<open>simp_all add: emptyUserData_def\<close>)
  then show ?thesis using assms(4) expected_list by simp
qed

theorem checkThenRecord_burst_witness:
  "map_of (blockedUsers newRateLimiter) ''u'' = None
   \<and> userLimits newRateLimiter (userKey ''u'' ''text'') = None
   \<and> length burstTimes = 21
   \<and> fst (checkThenRecord ''u'' ''text'' burstTimes newRateLimiter) =
     replicate 16 (Allowed None) @ [Allowed (Some (QuickWarning 16 20))] @
     replicate 3 (Allowed None) @
     [BlockedNow soft 300000 [\<lparr>vtype = perMinute, count = 20, limit = 20\<rparr>]]"
proof -
  have h1: "map_of (blockedUsers newRateLimiter) ''u'' = None" by (simp add: newRateLimiter_def)
  have h2: "userLimits newRateLimiter (userKey ''u'' ''text'') = None" by (simp add: newRateLimiter_def)
  have h3: "limits newRateLimiter messages = defaultLimits messages" by (simp add: newRateLimiter_def)
  have h4: "length burstTimes = 21" by (simp add: burstTimes_def)
  have h5: "\<forall>t\<in>set burstTimes. 1000000 \<le> t \<and> t < 1000000 + 60000" by (simp add: burstTimes_def)
  have h6: "(300000::int) < 1000000" by simp
  show ?thesis using h1 h2 h4 checkThenRecord_burst [OF h1 h2 h3 h4 h5 h6] by simp
qed

text \<open>
  Claim C3 as stated fails on the 16th check: it finds 15 recorded messages and carries
  no warning; the 17th carries it.
\<close>

theorem sixteenth_check_counterexample:
  "fst (checkThenRecord ''u'' ''text'' burstTimes newRateLimiter) ! 15 = Allowed None
   \<and> fst (checkThenRecord ''u'' ''text'' burstTimes newRateLimiter) ! 16
       = Allowed (Some (QuickWarning 16 20))"
proof -
  have len: "length burstTimes = 21" by (simp add: burstTimes_def)
  have "fst (checkThenRecord ''u'' ''text'' burstTimes newRateLimiter)
      = map expectedDecision [0 ..< 0 + length burstTimes]"
    by (rule scenario_from [where T = 1000000])
       (simp_all add: cur_def emptyUserData_def newRateLimiter_def burstTimes_def)
  then have "fst (checkThenRecord ''u'' ''text'' burstTimes newRateLimiter)
      = map expectedDecision [0 ..< 21]"
    using len by simp
  then show ?thesis
    by (simp add: expectedDecision_def)
qed

subsection \<open>The registry of blocked senders\<close>

text \<open>
  Claim C10. \<^verbatim>\<open>getBlockedUsers\<close> lists every record of the registry, in order; every
  entry has a remaining time of at least 0; and a record that has expired and is still in
  the registry is listed with the remaining time 0.
\<close>

theorem getBlockedUsers_remainingTime:
  "map userJid (getBlockedUsers now s) = map fst (blockedUsers s)
   \<and> (\<forall>e \<in> set (getBlockedUsers now s). 0 \<le> remainingTime e)
   \<and> (\<forall>(sender, b) \<in> set (blockedUsers s).
        blockedAt b + duration b \<le> now \<longrightarrow>
          \<lparr>userJid = sender, be_reason = reason b, remainingTime = 0, be_blockedAt = blockedAt b\<rparr>
            \<in> set (getBlockedUsers now s))"
proof (intro conjI)
  show "map userJid (getBlockedUsers now s) = map fst (blockedUsers s)"
    by (simp add: getBlockedUsers_def case_prod_beta)
  show "\<forall>e \<in> set (getBlockedUsers now s). 0 \<le> remainingTime e"
    by (auto simp: getBlockedUsers_def)
  show "\<forall>(sender, b) \<in> set (blockedUsers s).
        blockedAt b + duration b \<le> now \<longrightarrow>
          \<lparr>userJid = sender, be_reason = reason b, remainingTime = 0, be_blockedAt = blockedAt b\<rparr>
            \<in> set (getBlockedUsers now s)"
    by (force simp: getBlockedUsers_def)
qed

theorem getBlockedUsers_remainingTime_witness:
  "(''u@s.whatsapp.net'', exampleBlock) \<in> set (blockedUsers blockedLimiter)
   \<and> blockedAt exampleBlock + duration exampleBlock \<le> 2801000
   \<and> \<lparr>userJid = ''u@s.whatsapp.net'', be_reason = reason exampleBlock, remainingTime = 0,
       be_blockedAt = blockedAt exampleBlock\<rparr> \<in> set (getBlockedUsers 2801000 blockedLimiter)
   \<and> (0::int) \<le> remainingTime \<lparr>userJid = ''u@s.whatsapp.net'', be_reason = reason exampleBlock,
       remainingTime = 0, be_blockedAt = blockedAt exampleBlock\<rparr>"
proof -
  have m: "(''u@s.whatsapp.net'', exampleBlock) \<in> set (blockedUsers blockedLimiter)"
    by (simp add: blockedLimiter_def)
  have e: "blockedAt exampleBlock + duration exampleBlock \<le> 2801000"
    by (simp add: exampleBlock_def)
  from getBlockedUsers_remainingTime [of 2801000 blockedLimiter] m e show ?thesis
    by fastforce
qed

text \<open>
  Claim C5 as stated fails in its last part: a record that has expired, and that no
  lookup or sweep has met since, is still in the enumeration.
\<close>

theorem expired_block_still_listed_counterexample:
  "blockedAt exampleBlock + duration exampleBlock < 2801000
   \<and> map userJid (getBlockedUsers 2801000 blockedLimiter) = [''u@s.whatsapp.net'']"
  by (simp add: getBlockedUsers_def blockedLimiter_def exampleBlock_def)

lemma map_of_delete_None: "map_of (AList.delete k xs) k = None"
  by (simp add: delete_conv)

lemma fst_notin_delete: "k \<notin> fst ` set (AList.delete k xs)"
  by (auto simp: AList.delete_eq)

text \<open>
  Claim C5, amended. For a sender with a block record \<open>b\<close>: \<^verbatim>\<open>isBlocked\<close> answers true
  exactly when \<open>now < blockedAt + duration\<close>; a lookup at or after the expiry deletes
  the record, and an earlier one leaves the registry as it is; the sender is absent from
  the enumeration \<^verbatim>\<open>getBlockedUsers\<close> once such a lookup, or the sweep
  \<^verbatim>\<open>cleanupBlockedUsers\<close>, has run at or after the expiry.
\<close>

theorem isBlocked_expiry:
  assumes "map_of (blockedUsers s) sender = Some b"
    and "distinct (map fst (blockedUsers s))"
  shows "(fst (isBlocked now sender s) \<longleftrightarrow> now < blockedAt b + duration b)
    \<and> (blockedAt b + duration b \<le> now \<longrightarrow>
          map_of (blockedUsers (snd (isBlocked now sender s))) sender = None
          \<and> sender \<notin> set (map userJid (getBlockedUsers later (snd (isBlocked now sender s))))
          \<and> sender \<notin> set (map userJid (getBlockedUsers later (cleanupBlockedUsers now s))))
    \<and> (now < blockedAt b + duration b \<longrightarrow> snd (isBlocked now sender s) = s)"
proof (intro conjI impI)
  show "fst (isBlocked now sender s) \<longleftrightarrow> now < blockedAt b + duration b"
    using assms(1) by (auto simp: isBlocked_def)
  show "snd (isBlocked now sender s) = s" if "now < blockedAt b + duration b"
    using assms(1) that by (simp add: isBlocked_def)
next
  assume ex: "blockedAt b + duration b \<le> now"
  have sn: "blockedUsers (snd (isBlocked now sender s)) = AList.delete sender (blockedUsers s)"
    using assms(1) ex by (simp add: isBlocked_def)
  show "map_of (blockedUsers (snd (isBlocked now sender s))) sender = None"
    unfolding sn by (rule map_of_delete_None)
  have names: "\<And>t r. map userJid (getBlockedUsers t r) = map fst (blockedUsers r)"
    by (simp add: getBlockedUsers_def case_prod_beta)
  show "sender \<notin> set (map userJid (getBlockedUsers later (snd (isBlocked now sender s))))"
    unfolding names sn using fst_notin_delete [of sender "blockedUsers s"] by simp
  have "(sender, b') \<in> set (blockedUsers s) \<Longrightarrow> b' = b" for b'
    using assms by (metis map_of_is_SomeI option.inject)
  then have "sender \<notin> fst ` set (filter (\<lambda>(sender, b). \<not> now \<ge> blockedAt b + duration b) (blockedUsers s))"
    using ex by auto
  then show "sender \<notin> set (map userJid (getBlockedUsers later (cleanupBlockedUsers now s)))"
    unfolding names by (simp add: cleanupBlockedUsers_def)
qed

theorem isBlocked_expiry_witness:
  "map_of (blockedUsers blockedLimiter) ''u@s.whatsapp.net'' = Some exampleBlock
   \<and> distinct (map fst (blockedUsers blockedLimiter))
   \<and> fst (isBlocked 2799999 ''u@s.whatsapp.net'' blockedLimiter)
   \<and> \<not> fst (isBlocked 2801000 ''u@s.whatsapp.net'' blockedLimiter)
   \<and> ''u@s.whatsapp.net'' \<notin> set (map userJid (getBlockedUsers 2801000
          (snd (isBlocked 2801000 ''u@s.whatsapp.net'' blockedLimiter))))
   \<and> ''u@s.whatsapp.net'' \<notin> set (map userJid (getBlockedUsers 2801000
          (cleanupBlockedUsers 2801000 blockedLimiter)))"
proof -
  have m: "map_of (blockedUsers blockedLimiter) ''u@s.whatsapp.net'' = Some exampleBlock"
    by (simp add: blockedLimiter_def)
  have d: "distinct (map fst (blockedUsers blockedLimiter))"
    by (simp add: blockedLimiter_def)
  have t: "blockedAt exampleBlock + duration exampleBlock = 2800000"
    by (simp add: exampleBlock_def)
  show ?thesis
    using m d t isBlocked_expiry [OF m d, of 2799999 2801000]
      isBlocked_expiry [OF m d, of 2801000 2801000]
    by simp
qed

subsection \<open>Simultaneous violations\<close>

lemma stringGreater_irrefl: "\<not> stringGreater xs xs"
  by (induction xs) auto

lemma maxViolation_equal:
  "\<forall>w\<in>set vs. getViolationSeverity w = getViolationSeverity v \<Longrightarrow> maxViolation v vs = v"
  unfolding maxViolation_def
  by (induction vs) (auto simp: stringGreater_irrefl)

lemma severity_by_counts:
  assumes "0 < limit v"
  shows "getViolationSeverity v =
     (if 2 * limit v \<le> count v then severe
      else if 3 * limit v \<le> 2 * count v then hard
      else if limit v \<le> count v then soft
      else warning)"
proof -
  have l: "(0::rat) < of_nat (limit v)" using assms by simp
  have a: "(2 \<le> ratio v) = (2 * limit v \<le> count v)"
    unfolding ratio_def using l
    by (simp add: pos_le_divide_eq flip: of_nat_le_iff [where ?'a = rat])
  have b: "(3 / 2 \<le> ratio v) = (3 * limit v \<le> 2 * count v)"
    unfolding ratio_def using l
    by (simp add: pos_le_divide_eq pos_divide_le_eq mult.commute flip: of_nat_le_iff [where ?'a = rat])
  have c: "(1 \<le> ratio v) = (limit v \<le> count v)"
    unfolding ratio_def using l
    by (simp add: pos_le_divide_eq)
  show ?thesis unfolding getViolationSeverity_def using assms a b c by simp
qed

text \<open>
  Claim C2, amended. The violations of one check are listed in the order minute, hour,
  day, one for each window whose count has reached its limit. The severity of a violation
  follows its ratio: severe from 2, hard from 1.5, soft from 1, warning below. When the
  simultaneous violations all have the same severity, the first of them, that of the
  shortest window, determines the outcome: it is the reason of the block record, and its
  severity gives the duration.
\<close>

theorem handleViolations_equal_severity:
  assumes "\<forall>w\<in>set vs. getViolationSeverity w = getViolationSeverity v"
  shows "maxViolation v vs = v
    \<and> fst (handleViolations now sender v vs mt s) =
        BlockedNow (getViolationSeverity v) (blockDurations (getViolationSeverity v)) (v # vs)
    \<and> map_of (blockedUsers (snd (handleViolations now sender v vs mt s))) sender =
        Some \<lparr>blockedAt = now, duration = blockDurations (getViolationSeverity v), reason = v,
              violations = v # vs, messageType = mt\<rparr>
    \<and> (0 < limit v \<longrightarrow> getViolationSeverity v =
         (if 2 * limit v \<le> count v then severe
          else if 3 * limit v \<le> 2 * count v then hard
          else if limit v \<le> count v then soft
          else warning))
    \<and> checkLimits u k lims now =
        filter (\<lambda>w. limit w \<le> count w)
          [\<lparr>vtype = perMinute,
            count = length (filter (\<lambda>time. time > now - 60 * 1000) (actionsOf u k)),
            limit = limPerMinute lims\<rparr>,
           \<lparr>vtype = perHour,
            count = length (filter (\<lambda>time. time > now - 60 * 60 * 1000) (actionsOf u k)),
            limit = limPerHour lims\<rparr>,
           \<lparr>vtype = perDay,
            count = length (filter (\<lambda>time. time > now - 24 * 60 * 60 * 1000) (actionsOf u k)),
            limit = limPerDay lims\<rparr>]"
proof (intro conjI impI)
  show mx: "maxViolation v vs = v" using assms by (rule maxViolation_equal)
  show "fst (handleViolations now sender v vs mt s) =
        BlockedNow (getViolationSeverity v) (blockDurations (getViolationSeverity v)) (v # vs)"
    by (simp add: handleViolations_def Let_def mx)
  show "map_of (blockedUsers (snd (handleViolations now sender v vs mt s))) sender =
        Some \<lparr>blockedAt = now, duration = blockDurations (getViolationSeverity v), reason = v,
              violations = v # vs, messageType = mt\<rparr>"
    by (simp add: handleViolations_def Let_def mx update_conv)
  show "getViolationSeverity v =
         (if 2 * limit v \<le> count v then severe
          else if 3 * limit v \<le> 2 * count v then hard
          else if limit v \<le> count v then soft
          else warning)" if "0 < limit v"
    using that by (rule severity_by_counts)
  show "checkLimits u k lims now =
        filter (\<lambda>w. limit w \<le> count w)
          [\<lparr>vtype = perMinute,
            count = length (filter (\<lambda>time. time > now - 60 * 1000) (actionsOf u k)),
            limit = limPerMinute lims\<rparr>,
           \<lparr>vtype = perHour,
            count = length (filter (\<lambda>time. time > now - 60 * 60 * 1000) (actionsOf u k)),
            limit = limPerHour lims\<rparr>,
           \<lparr>vtype = perDay,
            count = length (filter (\<lambda>time. time > now - 24 * 60 * 60 * 1000) (actionsOf u k)),
            limit = limPerDay lims\<rparr>]"
    by (simp add: checkLimits_def Let_def)
qed

lemma ex_severities:
  "getViolationSeverity vMinute = soft" "getViolationSeverity vHour = soft"
  "getViolationSeverity vDay = soft" "getViolationSeverity vHourSevere = severe"
  by (simp_all add: getViolationSeverity_def ratio_def vMinute_def vHour_def vDay_def vHourSevere_def)

theorem handleViolations_equal_severity_witness:
  "getViolationSeverity vHour = getViolationSeverity vMinute
   \<and> getViolationSeverity vDay = getViolationSeverity vMinute
   \<and> 0 < limit vMinute
   \<and> maxViolation vMinute [vHour, vDay] = vMinute
   \<and> fst (handleViolations 1000000 ''u'' vMinute [vHour, vDay] ''text'' newRateLimiter) =
        BlockedNow soft 300000 [vMinute, vHour, vDay]"
proof -
  have h: "\<forall>w\<in>set [vHour, vDay]. getViolationSeverity w = getViolationSeverity vMinute"
    by (simp add: ex_severities)
  have l: "0 < limit vMinute" by (simp add: vMinute_def)
  show ?thesis
    using h l handleViolations_equal_severity [OF h, where now = 1000000 and sender = "''u''" and mt = "''text''" and s = newRateLimiter]
    by (simp add: ex_severities)
qed

lemma busy_check:
  "checkLimits (emptyUserData\<lparr>ud_messages := replicate 190 9000000 @ replicate 20 9990000\<rparr>)
     messages \<lparr>limPerMinute = 20, limPerHour = 100, limPerDay = 500\<rparr> 10000000
   = [vMinute, vHourSevere]"
  by (simp add: checkLimits_def Let_def vMinute_def vHourSevere_def emptyUserData_def)

lemma busy_canSend:
  "fst (canSendMessage 10000000 ''u'' ''text'' busyLimiter)
     = BlockedNow soft 300000 [vMinute, vHourSevere]"
proof -
  have cl: "cleanOldEntries (emptyUserData\<lparr>ud_messages := replicate 190 9000000 @ replicate 20 9990000\<rparr>)
      messages 10000000 = emptyUserData\<lparr>ud_messages := replicate 190 9000000 @ replicate 20 9990000\<rparr>"
    by (simp add: cleanOldEntries_def emptyUserData_def)
  have mx: "maxViolation vMinute [vHourSevere] = vMinute"
    by (simp add: maxViolation_def ex_severities)
  show ?thesis
    by (simp add: canSendMessage_def isBlocked_def busyLimiter_def newRateLimiter_def Let_def
        cl busy_check handleViolations_def mx ex_severities)
qed

text \<open>
  Claim C2 as stated fails twice. With a soft violation of the minute window and a severe
  one of the hour window, the outcome is soft: \<^verbatim>\<open>'severe' > 'soft'\<close> is false for
  strings; the admission check of a sender with 20 messages in the last minute and 210 in
  the last hour ends so. With three soft violations, the minute window's is kept, not the
  day's.
\<close>

theorem handleViolations_counterexample:
  "getViolationSeverity vMinute = soft \<and> getViolationSeverity vHourSevere = severe
   \<and> fst (handleViolations 1000000 ''u'' vMinute [vHourSevere] ''text'' newRateLimiter) =
        BlockedNow soft 300000 [vMinute, vHourSevere]
   \<and> fst (canSendMessage 10000000 ''u'' ''text'' busyLimiter) =
        BlockedNow soft 300000 [vMinute, vHourSevere]
   \<and> getViolationSeverity vHour = soft \<and> getViolationSeverity vDay = soft
   \<and> map_of (blockedUsers
        (snd (handleViolations 1000000 ''u'' vMinute [vHour, vDay] ''text'' newRateLimiter))) ''u''
      = Some \<lparr>blockedAt = 1000000, duration = 300000, reason = vMinute,
              violations = [vMinute, vHour, vDay], messageType = ''text''\<rparr>"
  by (simp add: handleViolations_def maxViolation_def ex_severities Let_def newRateLimiter_def
      busy_canSend)

subsection \<open>Commands\<close>

lemma recordAction_command_funpow:
  "blockedUsers ((recordAction now sender ''command'' mt ^^ n) s) = blockedUsers s
   \<and> limits ((recordAction now sender ''command'' mt ^^ n) s) = limits s
   \<and> ud_messages (cur ((recordAction now sender ''command'' mt ^^ n) s) (userKey sender mt))
       = ud_messages (cur s (userKey sender mt))
   \<and> ud_commands (cur ((recordAction now sender ''command'' mt ^^ n) s) (userKey sender mt))
       = ud_commands (cur s (userKey sender mt)) @ replicate n now"
proof (induction n)
  case 0
  then show ?case by simp
next
  case (Suc n)
  then show ?case
    by (simp add: recordAction_def Let_def cur_def replicate_append_same)
qed

lemma canSend_no_messages:
  assumes "mt \<noteq> ''media''"
    and "map_of (blockedUsers s) sender = None"
    and "limits s messages = defaultLimits messages"
    and "ud_messages (cur s (userKey sender mt)) = []"
  shows "fst (canSendMessage now sender mt s) = Allowed None"
proof -
  have "canSendMessage now sender mt s =
     (case shouldWarn (cur s (userKey sender mt)) messages (defaultLimits messages) now of
        (w, u') \<Rightarrow> (Allowed w, s\<lparr>userLimits := (userLimits s)(userKey sender mt \<mapsto> u')\<rparr>))"
    by (rule canSend_text_below) (use assms in simp_all)
  then show ?thesis using assms(4) by (simp add: shouldWarn_def Let_def)
qed

text \<open>
  Claim C4 fails on the code. After ten commands recorded within the minute, the command
  window holds 10 entries and the limit is 10, yet \<^verbatim>\<open>canSendMessage\<close> allows the sender,
  for the message type of the recorded commands, be it \<^verbatim>\<open>text\<close> or \<^verbatim>\<open>command\<close>:
  it only reads the \<^verbatim>\<open>messages\<close> and \<^verbatim>\<open>media\<close> lists.
\<close>

theorem commands_not_limited:
  "fst (canSendMessage 1000000 ''u'' ''text''
         ((recordAction 1000000 ''u'' ''command'' ''text'' ^^ 10) newRateLimiter)) = Allowed None
   \<and> fst (canSendMessage 1000000 ''u'' ''command''
         ((recordAction 1000000 ''u'' ''command'' ''command'' ^^ 10) newRateLimiter)) = Allowed None
   \<and> length (filter (\<lambda>time. time > 1000000 - 60 * 1000)
        (ud_commands (cur ((recordAction 1000000 ''u'' ''command'' ''text'' ^^ 10) newRateLimiter)
           (userKey ''u'' ''text'')))) = 10
   \<and> limPerMinute (limits ((recordAction 1000000 ''u'' ''command'' ''text'' ^^ 10) newRateLimiter)
        commands) = 10"
proof (intro conjI)
  note f1 = recordAction_command_funpow [where now = 1000000 and sender = "''u''" and mt = "''text''" and n = 10 and s = newRateLimiter]
  note f2 = recordAction_command_funpow [where now = 1000000 and sender = "''u''" and mt = "''command''" and n = 10 and s = newRateLimiter]
  have c: "\<And>key. cur newRateLimiter key = emptyUserData"
    by (simp add: cur_def newRateLimiter_def)
  show "fst (canSendMessage 1000000 ''u'' ''text''
         ((recordAction 1000000 ''u'' ''command'' ''text'' ^^ 10) newRateLimiter)) = Allowed None"
    by (rule canSend_no_messages) (simp_all add: f1 c, simp_all add: newRateLimiter_def emptyUserData_def)
  show "fst (canSendMessage 1000000 ''u'' ''command''
         ((recordAction 1000000 ''u'' ''command'' ''command'' ^^ 10) newRateLimiter)) = Allowed None"
    by (rule canSend_no_messages) (simp_all add: f2 c, simp_all add: newRateLimiter_def emptyUserData_def)
  show "length (filter (\<lambda>time. time > 1000000 - 60 * 1000)
        (ud_commands (cur ((recordAction 1000000 ''u'' ''command'' ''text'' ^^ 10) newRateLimiter)
           (userKey ''u'' ''text'')))) = 10"
    by (simp add: f1 c emptyUserData_def)
  show "limPerMinute (limits ((recordAction 1000000 ''u'' ''command'' ''text'' ^^ 10) newRateLimiter)
        commands) = 10"
    using f1 by (simp add: newRateLimiter_def)
qed

subsection \<open>Matching and normalization\<close>

lemma stringIncludes_iff: "stringIncludes s k \<longleftrightarrow> (\<exists>ps ss. s = ps @ k @ ss)"
proof (induction s)
  case Nil
  then show ?case by auto
next
  case (Cons c cs)
  have "take (length k) (c # cs) = k \<longleftrightarrow> (\<exists>ss. c # cs = k @ ss)"
    by (metis append_eq_conv_conj append_take_drop_id)
  moreover have "(\<exists>ps ss. c # cs = ps @ k @ ss) \<longleftrightarrow>
      (\<exists>ss. c # cs = k @ ss) \<or> (\<exists>ps ss. cs = ps @ k @ ss)"
  proof
    assume "\<exists>ps ss. c # cs = ps @ k @ ss"
    then obtain ps ss where e: "c # cs = ps @ k @ ss" by blast
    show "(\<exists>ss. c # cs = k @ ss) \<or> (\<exists>ps ss. cs = ps @ k @ ss)"
    proof (cases ps)
      case Nil
      then show ?thesis using e by auto
    next
      case (Cons p ps')
      then show ?thesis using e by auto
    qed
  next
    assume "(\<exists>ss. c # cs = k @ ss) \<or> (\<exists>ps ss. cs = ps @ k @ ss)"
    then show "\<exists>ps ss. c # cs = ps @ k @ ss"
    proof
      assume "\<exists>ss. c # cs = k @ ss"
      then show ?thesis by (metis append_Nil)
    next
      assume "\<exists>ps ss. cs = ps @ k @ ss"
      then show ?thesis by (metis append_Cons)
    qed
  qed
  ultimately show ?case using Cons.IH by simp
qed

text \<open>
  Claim C7 fails on the code for a case-sensitive rule. The keyword \<^verbatim>\<open>Hello\<close> is a
  substring of the text \<^verbatim>\<open>Hello world\<close>, but the rule does not fire: the keyword is
  looked up in the lower-case form of the text.
\<close>

theorem contains_case_sensitive_misses:
  "stringIncludes ''Hello world'' (keyword helloTrigger)
   \<and> shouldRespond env ''Hello world'' (toLowerCase ''Hello world'') helloTrigger = Some False"
  by (simp add: shouldRespond_def helloTrigger_def toLowerCase_def lowerChar_def)

text \<open>
  Claim C9 fails on the code for an event without a timestamp: \<^verbatim>\<open>extractMessageData\<close>
  throws a \<^verbatim>\<open>RangeError\<close>, and so does \<^verbatim>\<open>processMessage\<close>.
\<close>

theorem extractMessageData_missing_timestamp:
  "extractMessageData noTimestampEvent ''111@s.whatsapp.net'' False None = Inl RangeError
   \<and> processMessage env cfg now noTimestampEvent exampleHandler = Inl RangeError"
  by (simp add: extractMessageData_def processMessage_def toISOString_def noTimestampEvent_def
      endsWith_def Let_def split: prod.splits)

lemma extractMessageData_total:
  "toISOString (messageTimestamp ev) = Inr t \<Longrightarrow>
     \<exists>md. extractMessageData ev senderJid isGroup groupJid = Inr md \<and> timestamp md = t
       \<and> jid md = senderJid \<and> is_group md = isGroup \<and> message_id md = key_id (key ev)"
  by (simp add: extractMessageData_def split: prod.splits)

subsection \<open>The pipeline\<close>

lemma respond_fields:
  "sendCalls (respond md t h) = sendCalls h @ [\<lparr>to = jid md, body = Text (response t)\<rparr>]"
  "triggers (respond md t h) = triggers h"
  "connected (respond md t h) = connected h"
  "t_messages (db (respond md t h)) = t_messages (db h)"
  "t_spam_logs (db (respond md t h)) = t_spam_logs (db h)"
  by (simp_all add: respond_def sendText_def db_log_def)

lemma triggerLoop_sendCalls:
  "sendCalls (triggerLoop env md raw ts h) =
     sendCalls h @ map (\<lambda>t. \<lparr>to = jid md, body = Text (response t)\<rparr>)
       (filter (\<lambda>t. shouldRespond env raw (toLowerCase raw) t = Some True) ts)"
  by (induction ts arbitrary: h) (simp_all add: respond_fields)

lemma triggerLoop_fields:
  "triggers (triggerLoop env md raw ts h) = triggers h"
  "connected (triggerLoop env md raw ts h) = connected h"
  "t_messages (db (triggerLoop env md raw ts h)) = t_messages (db h)"
  "t_spam_logs (db (triggerLoop env md raw ts h)) = t_spam_logs (db h)"
  by (induction ts arbitrary: h) (simp_all add: respond_fields)

lemma processTriggers_sendCalls:
  "sendCalls (processTriggers env md h) = sendCalls h @ triggerCalls env md (triggers h)"
  by (simp add: processTriggers_def triggerCalls_def triggerLoop_sendCalls split: jsString.splits)

lemma processTriggers_fields:
  "triggers (processTriggers env md h) = triggers h"
  "connected (processTriggers env md h) = connected h"
  "t_messages (db (processTriggers env md h)) = t_messages (db h)"
  "t_spam_logs (db (processTriggers env md h)) = t_spam_logs (db h)"
  by (simp_all add: processTriggers_def triggerLoop_fields split: jsString.splits)

lemma foldl_save_fields:
  "t_messages (foldl (\<lambda>d v. db_saveCollectedData ty v a b d) d vs) = t_messages d"
  "t_spam_logs (foldl (\<lambda>d v. db_saveCollectedData ty v a b d) d vs) = t_spam_logs d"
  by (induction vs arbitrary: d) (simp_all add: db_saveCollectedData_def)

lemma saveCollected_fields:
  "t_messages (db_saveCollectedData ty v a b d) = t_messages d"
  "t_spam_logs (db_saveCollectedData ty v a b d) = t_spam_logs d"
  by (simp_all add: db_saveCollectedData_def)

lemma collectData_fields:
  "sendCalls (collectData env cfg md h) = sendCalls h"
  "triggers (collectData env cfg md h) = triggers h"
  "connected (collectData env cfg md h) = connected h"
  "t_messages (db (collectData env cfg md h)) = t_messages (db h)"
  "t_spam_logs (db (collectData env cfg md h)) = t_spam_logs (db h)"
  by (simp_all add: collectData_def Let_def foldl_save_fields saveCollected_fields
      split: jsString.splits)

lemma early_fields:
  "sendCalls (updateUserActivity p (saveMessageToDatabase md h)) = sendCalls h"
  "triggers (updateUserActivity p (saveMessageToDatabase md h)) = triggers h"
  "connected (updateUserActivity p (saveMessageToDatabase md h)) = connected h"
  "t_messages (db (updateUserActivity p (saveMessageToDatabase md h)))
     = t_messages (db_saveMessage md (db h))"
  "t_spam_logs (db (updateUserActivity p (saveMessageToDatabase md h))) = t_spam_logs (db h)"
  by (simp_all add: updateUserActivity_def saveMessageToDatabase_def db_updateUserActivity_def
      db_createUser_def db_saveMessage_def)

lemma recentMessageCount_cong:
  "t_messages d = t_messages d' \<Longrightarrow> recentMessageCount now j d = recentMessageCount now j d'"
  by (simp add: recentMessageCount_def)

lemma checkSpam_fields:
  "triggers (checkSpam cfg now md h) = triggers h"
  "connected (checkSpam cfg now md h) = connected h"
  "t_messages (db (checkSpam cfg now md h)) = t_messages (db h)"
  "t_spam_logs (db (checkSpam cfg now md h)) = t_spam_logs (db h) @
     (if spamThreshold cfg < recentMessageCount now (sender_jid md) (db h)
      then [spamRow md] else [])"
  "sendCalls (checkSpam cfg now md h) = sendCalls h @
     (if spamThreshold cfg < recentMessageCount now (sender_jid md) (db h) \<and> is_group md
      then [spamWarning md] else [])"
  by (simp_all add: checkSpam_def Let_def sendText_def db_logSpam_def spamRow_def spamWarning_def)

lemma processMessage_pipeline:
  assumes "\<not> fromMe (key ev)"
    and "extractMessageData ev (remoteJid (key ev)) (endsWith (remoteJid (key ev)) ''@g.us'')
           (if endsWith (remoteJid (key ev)) ''@g.us'' then Some (remoteJid (key ev)) else None)
         = Inr md"
  shows "\<exists>h'. processMessage env cfg now ev h = Inr h'
    \<and> triggers h' = triggers h
    \<and> t_messages (db h') = t_messages (db_saveMessage md (db h))
    \<and> t_spam_logs (db h') = t_spam_logs (db h) @
        (if spamThreshold cfg < recentMessageCount now (sender_jid md) (db_saveMessage md (db h))
         then [spamRow md] else [])
    \<and> sendCalls h' = sendCalls h @ triggerCalls env md (triggers h) @
        (if spamThreshold cfg < recentMessageCount now (sender_jid md) (db_saveMessage md (db h))
            \<and> is_group md
         then [spamWarning md] else [])"
proof -
  let ?p = "case orElse (participant (key ev)) (Str (remoteJid (key ev))) of
              Str p \<Rightarrow> p | _ \<Rightarrow> remoteJid (key ev)"
  let ?h2 = "updateUserActivity ?p (saveMessageToDatabase md h)"
  let ?h4 = "collectData env cfg md (processTriggers env md ?h2)"
  let ?h5 = "checkSpam cfg now md ?h4"
  have pm: "processMessage env cfg now ev h =
      Inr (?h5\<lparr>db := db_log ''info'' ''Message processed'' (db ?h5)\<rparr>)"
    using assms by (simp add: processMessage_def Let_def)
  have m4: "t_messages (db ?h4) = t_messages (db_saveMessage md (db h))"
    by (simp add: collectData_fields processTriggers_fields early_fields)
  have rc: "recentMessageCount now (sender_jid md) (db ?h4)
      = recentMessageCount now (sender_jid md) (db_saveMessage md (db h))"
    by (rule recentMessageCount_cong) (rule m4)
  have s4: "t_spam_logs (db ?h4) = t_spam_logs (db h)"
    by (simp add: collectData_fields processTriggers_fields early_fields)
  have c4: "sendCalls ?h4 = sendCalls h @ triggerCalls env md (triggers h)"
    by (simp add: collectData_fields processTriggers_sendCalls early_fields)
  have t4: "triggers ?h4 = triggers h"
    by (simp add: collectData_fields processTriggers_fields early_fields)
  show ?thesis
    unfolding pm
    by (intro exI conjI, rule refl)
       (simp_all add: db_log_def checkSpam_fields rc m4 s4 c4 t4)
qed

lemma filter_length_mono:
  "(\<And>x. x \<in> set xs \<Longrightarrow> P x \<Longrightarrow> Q x) \<Longrightarrow> length (filter P xs) \<le> length (filter Q xs)"
  by (induction xs) auto

lemma window_le_recent:
  assumes "fourDigitYear (now - 300000)" and "fourDigitYear now"
  shows "length (filter (\<lambda>m. sender_jid m = j \<and> now - 300000 < timestamp m \<and> timestamp m \<le> now)
           (t_messages d)) \<le> recentMessageCount now j d"
  unfolding recentMessageCount_def
proof (rule filter_length_mono)
  fix m
  assume "sender_jid m = j \<and> now - 300000 < timestamp m \<and> timestamp m \<le> now"
  then have j: "sender_jid m = j" and lo: "now - 300000 < timestamp m" and hi: "timestamp m \<le> now"
    by auto
  have y: "fourDigitYear (timestamp m)"
    using assms lo hi by (simp add: fourDigitYear_def)
  have "(now - 300000) div 86400000 \<le> timestamp m div 86400000"
    using lo by (intro zdiv_mono1) auto
  then show "sender_jid m = j \<and> timestampAfter (timestamp m) (now - 5 * 60 * 1000)"
    using j y by (simp add: timestampAfter_def utcDay_def)
qed














lemma normalizeEvent_examples:
  "normalizeEvent blockedSenderEvent = Inr blockedSenderMessage"
  "normalizeEvent sixthEvent = Inr (groupMessage ''G6'' 1700000250000)"
  by (simp_all add: normalizeEvent_def extractMessageData_def blockedSenderEvent_def sixthEvent_def
      blockedSenderMessage_def groupMessage_def textContent_def payloadOf_def contextOf_def
      toISOString_def endsWith_def orElse_def)






text \<open>
  The part of the spam check that holds of the trailing five minutes: when the stored
  messages of the sender with a timestamp in that window, the processed one included,
  are more than \<open>spamThreshold\<close>, the sender is flagged. The clock is taken within the
  years 0000 to 9999.
\<close>

lemma trailing_window_flagged:
  assumes "\<not> fromMe (key ev)"
    and "normalizeEvent ev = Inr md"
    and "fourDigitYear (now - 300000)"
    and "fourDigitYear now"
    and "spamThreshold cfg <
           length (filter (\<lambda>m. sender_jid m = sender_jid md
                                \<and> now - 300000 < timestamp m \<and> timestamp m \<le> now)
                     (t_messages (db_saveMessage md (db h))))"
  shows "\<exists>h'. processMessage env cfg now ev h = Inr h'
    \<and> t_spam_logs (db h') = t_spam_logs (db h) @
         [\<lparr>sl_user_jid = sender_jid md, sl_message_id = message_id md,
           sl_reason = ''High message frequency'', sl_severity = ''medium'',
           sl_action_taken = ''flagged''\<rparr>]
    \<and> sendCalls h' = sendCalls h @ triggerCalls env md (triggers h) @
         (if is_group md
          then [\<lparr>to = jid md, body = SlowDown (beforeAt (sender_jid md))\<rparr>] else [])"
proof -
  have "spamThreshold cfg < recentMessageCount now (sender_jid md) (db_saveMessage md (db h))"
    using assms(5) window_le_recent [OF assms(3) assms(4), of "sender_jid md" "db_saveMessage md (db h)"]
    by simp
  with processMessage_pipeline [OF assms(1) assms(2) [unfolded normalizeEvent_def], of env cfg now h]
  show ?thesis
    by (auto simp: spamRow_def spamWarning_def)
qed

lemma sixth_parts:
  "\<not> fromMe (key sixthEvent)"
  "fourDigitYear (1700000300000 - 300000)"
  "fourDigitYear 1700000300000"
  "t_messages (db_saveMessage (groupMessage ''G6'' 1700000250000) (db spamHandler)) =
     [groupMessage ''G1'' 1700000010000, groupMessage ''G2'' 1700000060000,
      groupMessage ''G3'' 1700000110000, groupMessage ''G4'' 1700000160000,
      groupMessage ''G5'' 1700000210000, groupMessage ''G6'' 1700000250000]"
  "triggerCalls exampleBuiltins (groupMessage ''G6'' 1700000250000) (triggers spamHandler) = []"
  "is_group (groupMessage ''G6'' 1700000250000)"
  "sendCalls spamHandler = []"
  "t_spam_logs (db spamHandler) = []"
  "spamThreshold exampleConfig = 5"
  by (simp_all add: sixthEvent_def fourDigitYear_def db_saveMessage_def spamHandler_def
      emptyDatabase_def groupMessage_def triggerCalls_def exampleConfig_def)

lemma sixth_message_flagged:
  "\<not> fromMe (key sixthEvent)
   \<and> normalizeEvent sixthEvent = Inr (groupMessage ''G6'' 1700000250000)
   \<and> length (filter (\<lambda>m. sender_jid m = ''s1@s.whatsapp.net''
                          \<and> 1700000300000 - 300000 < timestamp m \<and> timestamp m \<le> 1700000300000)
               (t_messages (db_saveMessage (groupMessage ''G6'' 1700000250000) (db spamHandler))))
       = 6
   \<and> map_sum id (\<lambda>h'. (t_spam_logs (db h'), sendCalls h'))
        (processMessage exampleBuiltins exampleConfig 1700000300000 sixthEvent spamHandler)
      = Inr ([\<lparr>sl_user_jid = ''s1@s.whatsapp.net'', sl_message_id = ''G6'',
               sl_reason = ''High message frequency'', sl_severity = ''medium'',
               sl_action_taken = ''flagged''\<rparr>],
             [\<lparr>to = ''g1@g.us'', body = SlowDown ''s1''\<rparr>])"
proof -
  have c: "length (filter (\<lambda>m. sender_jid m = sender_jid (groupMessage ''G6'' 1700000250000)
                          \<and> 1700000300000 - 300000 < timestamp m \<and> timestamp m \<le> 1700000300000)
               (t_messages (db_saveMessage (groupMessage ''G6'' 1700000250000) (db spamHandler))))
       = 6"
    unfolding sixth_parts(4) by (simp add: groupMessage_def)
  have t: "spamThreshold exampleConfig <
       length (filter (\<lambda>m. sender_jid m = sender_jid (groupMessage ''G6'' 1700000250000)
                          \<and> 1700000300000 - 300000 < timestamp m \<and> timestamp m \<le> 1700000300000)
               (t_messages (db_saveMessage (groupMessage ''G6'' 1700000250000) (db spamHandler))))"
    unfolding c sixth_parts(9) by simp
  have g: "sender_jid (groupMessage ''G6'' 1700000250000) = ''s1@s.whatsapp.net''"
    "jid (groupMessage ''G6'' 1700000250000) = ''g1@g.us''"
    "message_id (groupMessage ''G6'' 1700000250000) = ''G6''"
    "beforeAt ''s1@s.whatsapp.net'' = ''s1''"
    by (simp_all add: groupMessage_def beforeAt_def)
  from trailing_window_flagged [OF sixth_parts(1) normalizeEvent_examples(2) sixth_parts(2,3) t,
      of exampleBuiltins]
  show ?thesis
    using sixth_parts(1) normalizeEvent_examples(2) c sixth_parts(5,6,7,8) g by auto
qed




subsection \<open>Mutations of the rules\<close>

text \<open>
  Claim C6 as stated fails for \<^verbatim>\<open>remove\<close>: removing a keyword that no rule has
  succeeds, and changes nothing.
\<close>

theorem removeTrigger_absent_counterexample:
  "''nope'' \<notin> set (map keyword (t_triggers (db exampleHandler)))
   \<and> removeTrigger ''nope'' exampleHandler = (True, exampleHandler)"
  by (simp add: removeTrigger_def db_removeTrigger_def loadTriggers_def getActiveTriggers_def
      exampleHandler_def emptyDatabase_def helpTrigger_def)

text \<open>
  Claim C6, amended. Adding a keyword that a stored rule already has fails and leaves the
  handler as it was; adding a new keyword succeeds and appends the rule. Removing always
  succeeds, and deletes the rules with the keyword; with no such rule the store is
  unchanged. After every successful mutation the snapshot is the active part of the
  store, and the next matching runs against it: the responses dispatched are those of
  the rules of the new store that fire.
\<close>

theorem trigger_mutations:
  "(kw \<in> set (map keyword (t_triggers (db h))) \<longrightarrow>
      addTrigger kw resp mtype cs h = (False, h))
   \<and> (kw \<notin> set (map keyword (t_triggers (db h))) \<longrightarrow>
        fst (addTrigger kw resp mtype cs h) = True
        \<and> t_triggers (db (snd (addTrigger kw resp mtype cs h))) = t_triggers (db h) @
             [\<lparr>keyword = kw, response = resp, is_active = True, match_type = mtype,
               case_sensitive = cs\<rparr>]
        \<and> triggers (snd (addTrigger kw resp mtype cs h)) =
             getActiveTriggers (db (snd (addTrigger kw resp mtype cs h)))
        \<and> sendCalls (processTriggers env md (snd (addTrigger kw resp mtype cs h))) =
             sendCalls h @ triggerCalls env md
               (getActiveTriggers (db h) @
                  [\<lparr>keyword = kw, response = resp, is_active = True, match_type = mtype,
                    case_sensitive = cs\<rparr>]))
   \<and> fst (removeTrigger kw h) = True
   \<and> t_triggers (db (snd (removeTrigger kw h))) = filter (\<lambda>r. keyword r \<noteq> kw) (t_triggers (db h))
   \<and> triggers (snd (removeTrigger kw h)) = getActiveTriggers (db (snd (removeTrigger kw h)))
   \<and> kw \<notin> set (map keyword (triggers (snd (removeTrigger kw h))))
   \<and> sendCalls (processTriggers env md (snd (removeTrigger kw h))) =
        sendCalls h @ triggerCalls env md (filter (\<lambda>r. keyword r \<noteq> kw) (getActiveTriggers (db h)))
   \<and> (kw \<notin> set (map keyword (t_triggers (db h))) \<longrightarrow> db (snd (removeTrigger kw h)) = db h)"
proof (intro conjI impI)
  show "addTrigger kw resp mtype cs h = (False, h)"
    if "kw \<in> set (map keyword (t_triggers (db h)))"
    using that by (simp add: addTrigger_def db_addTrigger_def)
  show "db (snd (removeTrigger kw h)) = db h" if "kw \<notin> set (map keyword (t_triggers (db h)))"
  proof -
    have "filter (\<lambda>r. keyword r \<noteq> kw) (t_triggers (db h)) = t_triggers (db h)"
      using that by (intro filter_all) auto
    then show ?thesis
      by (simp add: removeTrigger_def db_removeTrigger_def loadTriggers_def)
  qed
  show "fst (removeTrigger kw h) = True" by (simp add: removeTrigger_def)
  show "t_triggers (db (snd (removeTrigger kw h))) = filter (\<lambda>r. keyword r \<noteq> kw) (t_triggers (db h))"
    by (simp add: removeTrigger_def db_removeTrigger_def loadTriggers_def)
  show "triggers (snd (removeTrigger kw h)) = getActiveTriggers (db (snd (removeTrigger kw h)))"
    by (simp add: removeTrigger_def loadTriggers_def)
  show "kw \<notin> set (map keyword (triggers (snd (removeTrigger kw h))))"
    by (auto simp: removeTrigger_def db_removeTrigger_def loadTriggers_def getActiveTriggers_def)
  show "sendCalls (processTriggers env md (snd (removeTrigger kw h))) =
        sendCalls h @ triggerCalls env md (filter (\<lambda>r. keyword r \<noteq> kw) (getActiveTriggers (db h)))"
    by (simp add: processTriggers_sendCalls removeTrigger_def db_removeTrigger_def loadTriggers_def
        getActiveTriggers_def conj_commute)
next
  assume a: "kw \<notin> set (map keyword (t_triggers (db h)))"
  then have ad: "addTrigger kw resp mtype cs h =
      (True, loadTriggers (h\<lparr>db := (db h)\<lparr>t_triggers := t_triggers (db h) @
             [\<lparr>keyword = kw, response = resp, is_active = True, match_type = mtype,
               case_sensitive = cs\<rparr>]\<rparr>\<rparr>))"
    by (simp add: addTrigger_def db_addTrigger_def)
  show "fst (addTrigger kw resp mtype cs h) = True" unfolding ad by simp
  show "t_triggers (db (snd (addTrigger kw resp mtype cs h))) = t_triggers (db h) @
             [\<lparr>keyword = kw, response = resp, is_active = True, match_type = mtype,
               case_sensitive = cs\<rparr>]"
    unfolding ad by (simp add: loadTriggers_def)
  show "triggers (snd (addTrigger kw resp mtype cs h)) =
             getActiveTriggers (db (snd (addTrigger kw resp mtype cs h)))"
    unfolding ad by (simp add: loadTriggers_def)
  show "sendCalls (processTriggers env md (snd (addTrigger kw resp mtype cs h))) =
             sendCalls h @ triggerCalls env md
               (getActiveTriggers (db h) @
                  [\<lparr>keyword = kw, response = resp, is_active = True, match_type = mtype,
                    case_sensitive = cs\<rparr>])"
    unfolding ad by (simp add: processTriggers_sendCalls loadTriggers_def getActiveTriggers_def)
qed

theorem trigger_mutations_witness:
  "''help'' \<in> set (map keyword (t_triggers (db exampleHandler)))
   \<and> addTrigger ''help'' ''Again'' ''exact'' False exampleHandler = (False, exampleHandler)
   \<and> ''ping'' \<notin> set (map keyword (t_triggers (db exampleHandler)))
   \<and> fst (addTrigger ''ping'' ''Pong'' ''exact'' False exampleHandler) = True
   \<and> sendCalls (processTriggers exampleBuiltins pingMessage
        (snd (addTrigger ''ping'' ''Pong'' ''exact'' False exampleHandler)))
      = [\<lparr>to = ''v@s.whatsapp.net'', body = Text ''Pong''\<rparr>]
   \<and> ''nope'' \<notin> set (map keyword (t_triggers (db exampleHandler)))
   \<and> fst (removeTrigger ''nope'' exampleHandler) = True
   \<and> db (snd (removeTrigger ''nope'' exampleHandler)) = db exampleHandler"
proof -
  have k: "''help'' \<in> set (map keyword (t_triggers (db exampleHandler)))"
    "''ping'' \<notin> set (map keyword (t_triggers (db exampleHandler)))"
    "''nope'' \<notin> set (map keyword (t_triggers (db exampleHandler)))"
    by (simp_all add: exampleHandler_def emptyDatabase_def helpTrigger_def)
  have tc: "sendCalls exampleHandler @ triggerCalls exampleBuiltins pingMessage
      (getActiveTriggers (db exampleHandler) @
         [\<lparr>keyword = ''ping'', response = ''Pong'', is_active = True, match_type = ''exact'',
           case_sensitive = False\<rparr>])
      = [\<lparr>to = ''v@s.whatsapp.net'', body = Text ''Pong''\<rparr>]"
    by (simp add: triggerCalls_def pingMessage_def getActiveTriggers_def exampleHandler_def
        emptyDatabase_def helpTrigger_def shouldRespond_def toLowerCase_def lowerChar_def)
  from trigger_mutations [where kw = "''help''" and resp = "''Again''" and mtype = "''exact''"
      and cs = False and h = exampleHandler]
    trigger_mutations [where kw = "''ping''" and resp = "''Pong''" and mtype = "''exact''"
      and cs = False and h = exampleHandler and env = exampleBuiltins and md = pingMessage]
    trigger_mutations [where kw = "''nope''" and h = exampleHandler]
  show ?thesis
    using k unfolding tc by simp
qed

end
